theory Spec2Isabelle
  imports Main
begin

section \<open>Go errors\<close>

text \<open>
  The gRPC status codes used by the controller server (package \<open>codes\<close>).
\<close>

datatype codes =
    OK | Canceled | Unknown | InvalidArgument | DeadlineExceeded | NotFound
  | AlreadyExists | PermissionDenied | ResourceExhausted | FailedPrecondition
  | Aborted | OutOfRange | Unimplemented | Internal | Unavailable | DataLoss
  | Unauthenticated

text \<open>
  A Go \<open>error\<close> value that is not nil. \<open>ErrorsNew\<close> is a package-level value made by
  \<open>errors.New\<close> (identified by its text), \<open>Errno\<close> a go-ceph error number
  (\<open>radosError\<close>, compared by value), \<open>Wrap\<close> an error made by \<open>fmt.Errorf\<close> with
  one \<open>%w\<close> verb, \<open>Join\<close> an error whose \<open>Unwrap\<close> returns a list, and
  \<open>StatusError\<close> an error made by \<open>status.Error\<close>. The nil error is \<open>None\<close> of
  \<open>go_error option\<close>.
\<close>

datatype go_error =
    ErrorsNew string
  | Errno int
  | Wrap string go_error
  | Join "go_error list"
  | StatusError codes string

text \<open>The package-level error values of \<open>internal/util/errors.go\<close>.\<close>

definition ErrImageNotFound :: go_error where
  "ErrImageNotFound = ErrorsNew ''image not found''"


definition ErrObjectExists :: go_error where
  "ErrObjectExists = ErrorsNew ''object exists''"

definition ErrObjectNotFound :: go_error where
  "ErrObjectNotFound = ErrorsNew ''object not found''"

definition ErrSnapNameConflict :: go_error where
  "ErrSnapNameConflict = ErrorsNew ''snapshot name conflict''"


definition ErrClusterIDNotSet :: go_error where
  "ErrClusterIDNotSet = ErrorsNew ''clusterID must be set''"

definition ErrMissingConfigForMonitor :: go_error where
  "ErrMissingConfigForMonitor = ErrorsNew ''missing configuration of cluster ID for monitor''"


text \<open>
  \<open>errors.Is\<close> of the Go standard library for a target that is not nil: the error is
  compared with the target, then unwrapped; an error that unwraps to a list matches when
  one of its members does (depth first).
\<close>

fun errors_Is :: "go_error \<Rightarrow> go_error \<Rightarrow> bool" where
  "errors_Is (Wrap msg inner) target = (Wrap msg inner = target \<or> errors_Is inner target)"
| "errors_Is (Join errs) target = (Join errs = target \<or> (\<exists>e \<in> set errs. errors_Is e target))"
| "errors_Is err target = (err = target)"




section \<open>Capacity-based QoS limits\<close>

subsection \<open>64-bit integers and their decimal form\<close>

text \<open>
  Go's \<open>int64\<close> is modelled as an \<open>int\<close> in the range of \<open>in_int64\<close>; the
  arithmetic operators wrap around modulo \<open>2 ^ 64\<close>, and the quotient truncates
  towards zero.
\<close>

definition in_int64 :: "int \<Rightarrow> bool" where
  "in_int64 x = (- (2 ^ 63) \<le> x \<and> x < 2 ^ 63)"

definition wrap64 :: "int \<Rightarrow> int" where
  "wrap64 x = (x + 2 ^ 63) mod 2 ^ 64 - 2 ^ 63"

definition add64 :: "int \<Rightarrow> int \<Rightarrow> int" where
  "add64 a b = wrap64 (a + b)"

definition sub64 :: "int \<Rightarrow> int \<Rightarrow> int" where
  "sub64 a b = wrap64 (a - b)"

definition mul64 :: "int \<Rightarrow> int \<Rightarrow> int" where
  "mul64 a b = wrap64 (a * b)"

definition quo64 :: "int \<Rightarrow> int \<Rightarrow> int" where
  "quo64 a b = wrap64 (sgn a * sgn b * (\<bar>a\<bar> div \<bar>b\<bar>))"

text \<open>
  \<open>strconv.ParseInt(s, 10, 64)\<close>: an optional sign, then one or more decimal digits
  read from the left by \<open>ParseUint\<close>, which stops with a syntax error at a character
  that is no digit and with a range error once the value leaves 64 bits; a value outside
  the \<open>int64\<close> range is a range error.
\<close>

datatype NumError = ErrSyntax | ErrRange

definition is_digit :: "char \<Rightarrow> bool" where
  "is_digit c = (48 \<le> (of_char c :: nat) \<and> (of_char c :: nat) \<le> 57)"

fun parse_digits :: "string \<Rightarrow> nat \<Rightarrow> NumError + nat" where
  "parse_digits [] n = Inr n"
| "parse_digits (c # cs) n =
     (if \<not> is_digit c then Inl ErrSyntax
      else if n * 10 + (of_char c - 48) \<ge> 2 ^ 64 then Inl ErrRange
      else parse_digits cs (n * 10 + (of_char c - 48)))"

definition ParseUint :: "string \<Rightarrow> NumError + nat" where
  "ParseUint s = (if s = [] then Inl ErrSyntax else parse_digits s 0)"

definition ParseInt :: "string \<Rightarrow> NumError + int" where
  "ParseInt s0 =
     (if s0 = [] then Inl ErrSyntax
      else
        let neg = (hd s0 = CHR ''-'');
            s = (if hd s0 = CHR ''+'' \<or> hd s0 = CHR ''-'' then tl s0 else s0)
        in case ParseUint s of
             Inl ErrSyntax \<Rightarrow> Inl ErrSyntax
           | Inl ErrRange \<Rightarrow> Inl ErrRange
           | Inr un \<Rightarrow>
               if \<not> neg \<and> un \<ge> 2 ^ 63 then Inl ErrRange
               else if neg \<and> un > 2 ^ 63 then Inl ErrRange
               else Inr (if neg then - int un else int un))"

text \<open>\<open>strconv.FormatInt(i, 10)\<close>.\<close>

definition digit_char :: "nat \<Rightarrow> char" where
  "digit_char d = ''0123456789'' ! d"

fun FormatUint :: "nat \<Rightarrow> string" where
  "FormatUint n =
     (if n < 10 then [digit_char n] else FormatUint (n div 10) @ [digit_char (n mod 10)])"

declare FormatUint.simps [simp del]

definition FormatInt :: "int \<Rightarrow> string" where
  "FormatInt i = (if i < 0 then CHR ''-'' # FormatUint (nat (- i)) else FormatUint (nat i))"

subsection \<open>The volume and its QoS parameters\<close>

text \<open>
  Modelled from the spec: the constant \<open>oneGB\<close> is declared in a file of the package
  that is not at hand; \<open>TestSetQOS\<close> fixes it (a request of \<open>20 * oneGB\<close> bytes is not
  above a base size of 21474836480 bytes, and one of \<open>100 * oneGB\<close> bytes is 80 GiB
  above it).
\<close>

definition oneGB :: int where
  "oneGB = 1073741824"

record qosSpec =
  baseLimitType :: string
  baseLimit :: string
  perGiBLimitType :: string
  perGiBLimit :: string
  present :: bool

text \<open>
  The fields of \<open>rbdVolume\<close> the calculation reads and writes. \<open>QosParameters\<close> is
  \<open>None\<close> for the nil map.
\<close>

record rbdVolume =
  RequestedVolSize :: int
  BaseVolSize :: string
  QosParameters :: "(string \<rightharpoonup> string) option"

definition init_QosParameters :: "rbdVolume \<Rightarrow> rbdVolume" where
  "init_QosParameters rv =
     (if QosParameters rv = None then rv\<lparr>QosParameters := Some Map.empty\<rparr> else rv)"

definition set_QosParameter :: "rbdVolume \<Rightarrow> string \<Rightarrow> string \<Rightarrow> rbdVolume" where
  "set_QosParameter rv k v =
     rv\<lparr>QosParameters :=
          Some ((case QosParameters rv of None \<Rightarrow> Map.empty | Some m \<Rightarrow> m)(k \<mapsto> v))\<rparr>"

definition qos_value :: "rbdVolume \<Rightarrow> string \<Rightarrow> string option" where
  "qos_value rv k = (case QosParameters rv of None \<Rightarrow> None | Some m \<Rightarrow> m k)"

text \<open>
  \<open>rbdVolume.calcQosBasedOnCapacity\<close>: the returned error and the updated volume.
\<close>

definition calcQosBasedOnCapacity :: "rbdVolume \<Rightarrow> qosSpec \<Rightarrow> NumError option \<times> rbdVolume" where
  "calcQosBasedOnCapacity rv0 qos =
     (let rv = init_QosParameters rv0
      in if baseLimit qos = [] then (None, rv)
         else case ParseInt (baseLimit qos) of
           Inl err \<Rightarrow> (Some err, rv)
         | Inr baseLimitV \<Rightarrow>
             if perGiBLimit qos \<noteq> [] \<and> BaseVolSize rv \<noteq> [] then
               (case ParseInt (perGiBLimit qos) of
                  Inl err \<Rightarrow> (Some err, rv)
                | Inr perGiBLimitV \<Rightarrow>
                    (case ParseInt (BaseVolSize rv) of
                       Inl err \<Rightarrow> (Some err, rv)
                     | Inr baseVolSize \<Rightarrow>
                         if RequestedVolSize rv \<le> baseVolSize
                         then (None, set_QosParameter rv (baseLimitType qos) (baseLimit qos))
                         else
                           let capacityQos =
                                 mul64 (quo64 (sub64 (RequestedVolSize rv) baseVolSize) oneGB)
                                   perGiBLimitV;
                               finalQosLimit = add64 baseLimitV capacityQos
                           in (None,
                               set_QosParameter rv (baseLimitType qos) (FormatInt finalQosLimit))))
             else (None, set_QosParameter rv (baseLimitType qos) (baseLimit qos)))"

text \<open>The volumes and the read-IOPS specification of \<open>TestSetQOS\<close>, and one at the edge of \<open>int64\<close>.\<close>

definition test_qos :: qosSpec where
  "test_qos = \<lparr>baseLimitType = ''rbd_qos_read_iops_limit'', baseLimit = ''2000'',
                perGiBLimitType = ''ReadIopsPerGiB'', perGiBLimit = ''20'', present = True\<rparr>"

definition test_volume :: "int \<Rightarrow> rbdVolume" where
  "test_volume gib = \<lparr>RequestedVolSize = oneGB * gib, BaseVolSize = ''21474836480'',
                        QosParameters = None\<rparr>"

definition edge_qos :: qosSpec where
  "edge_qos = \<lparr>baseLimitType = ''rbd_qos_read_iops_limit'', baseLimit = ''9223372036854775807'',
                perGiBLimitType = ''ReadIopsPerGiB'', perGiBLimit = ''1'', present = True\<rparr>"

definition edge_volume :: rbdVolume where
  "edge_volume = \<lparr>RequestedVolSize = 2147483648, BaseVolSize = ''1073741824'',
                    QosParameters = None\<rparr>"

section \<open>The volume group snapshot controller\<close>

subsection \<open>Requests, responses and collaborators\<close>

record CreateVolumeGroupSnapshotRequest =
  Name :: string
  SourceVolumeIds :: "string list"
  Parameters :: "string \<rightharpoonup> string"
  Secrets :: "string \<rightharpoonup> string"

record csi_Snapshot =
  SnapshotId :: string
  SourceVolumeId :: string

record csi_VolumeGroupSnapshot =
  GroupSnapshotId :: string
  Snapshots :: "csi_Snapshot list"
  CreationTime :: nat
  ReadyToUse :: bool

text \<open>
  What a controller call returns: a response, or an error made by \<open>status.Error\<close> and
  represented by its code (the message text is not modelled; with the code \<open>OK\<close>
  \<open>status.Error\<close> gives the nil error), or the panic of a method call on a nil
  interface value. Logging is not modelled.
\<close>

datatype 'a rpc = Reply 'a | Status codes | Panic

text \<open>
  One entry of the call log: a call the controller makes on the lock set, the manager,
  a volume, a volume group or a group snapshot, with what the call returned. The log is
  an observation of the run; the Go code does not keep it.
\<close>

datatype ('vol, 'vg, 'gs) event =
    EvTryAcquire string bool
  | EvRelease string
  | EvGetVolumeByID string "go_error + 'vol"
  | EvGetVolumeGroupSnapshotByName string "'gs option" "go_error option"
  | EvGetVolumeGroupSnapshotByID string "go_error + 'gs"
  | EvNewUserCredentials "go_error option"
  | EvDeleteCredentials
  | EvPrepareVolumeForSnapshot 'vol "go_error option"
  | EvCreateVolumeGroup string "go_error + 'vg"
  | EvAddVolume 'vg "'vol option" "go_error option"
  | EvRemoveVolume 'vg "'vol option" "go_error option"
  | EvDeleteVolumeGroup 'vg "go_error option"
  | EvDestroyVolumeGroup 'vg
  | EvDestroyVolume 'vol
  | EvCreateVolumeGroupSnapshot 'vg string "go_error + 'gs"
  | EvToCSI 'gs "go_error + csi_VolumeGroupSnapshot"
  | EvDeleteVolumeGroupSnapshot 'gs "go_error option"
  | EvDestroyVolumeGroupSnapshot 'gs
  | EvDestroyManager

text \<open>
  The collaborators of the controller, none of which is in the files at hand: the
  manager made by \<open>NewManager\<close> for the request (\<open>mgr_\<close>), the volumes (\<open>vol_\<close>), the
  volume group (\<open>vg_\<close>), the group snapshot (\<open>vgs_\<close>) and the credentials. They are
  parameters: each is a function on the state \<open>'w\<close> of the storage cluster and of the
  process. A Go result \<open>(value, error)\<close> of which the code tests the error only is a
  sum; \<open>GetVolumeGroupSnapshotByName\<close>, whose value is tested first, returns both.
\<close>

record ('w, 'vol, 'vg, 'gs, 'cr) backend =
  mgr_GetVolumeByID :: "string \<Rightarrow> 'w \<Rightarrow> (go_error + 'vol) \<times> 'w"
  mgr_GetVolumeGroupSnapshotByName :: "string \<Rightarrow> 'w \<Rightarrow> ('gs option \<times> go_error option) \<times> 'w"
  mgr_GetVolumeGroupSnapshotByID :: "string \<Rightarrow> 'w \<Rightarrow> (go_error + 'gs) \<times> 'w"
  mgr_CreateVolumeGroup :: "string \<Rightarrow> 'w \<Rightarrow> (go_error + 'vg) \<times> 'w"
  mgr_CreateVolumeGroupSnapshot :: "'vg \<Rightarrow> string \<Rightarrow> 'w \<Rightarrow> (go_error + 'gs) \<times> 'w"
  mgr_Destroy :: "'w \<Rightarrow> 'w"
  NewUserCredentials :: "(string \<rightharpoonup> string) \<Rightarrow> go_error + 'cr"
  DeleteCredentials :: "'cr \<Rightarrow> 'w \<Rightarrow> 'w"
  vol_PrepareVolumeForSnapshot :: "'vol \<Rightarrow> 'cr \<Rightarrow> 'w \<Rightarrow> go_error option \<times> 'w"
  vol_Destroy :: "'vol \<Rightarrow> 'w \<Rightarrow> 'w"
  vg_AddVolume :: "'vg \<Rightarrow> 'vol option \<Rightarrow> 'w \<Rightarrow> go_error option \<times> 'w"
  vg_RemoveVolume :: "'vg \<Rightarrow> 'vol option \<Rightarrow> 'w \<Rightarrow> go_error option \<times> 'w"
  vg_Delete :: "'vg \<Rightarrow> 'w \<Rightarrow> go_error option \<times> 'w"
  vg_Destroy :: "'vg \<Rightarrow> 'w \<Rightarrow> 'w"
  vgs_ToCSI :: "'gs \<Rightarrow> 'w \<Rightarrow> (go_error + csi_VolumeGroupSnapshot) \<times> 'w"
  vgs_Delete :: "'gs \<Rightarrow> 'w \<Rightarrow> go_error option \<times> 'w"
  vgs_Destroy :: "'gs \<Rightarrow> 'w \<Rightarrow> 'w"

text \<open>
  \<open>status.Code\<close> of gRPC: the code of the first status error found by unwrapping, and
  \<open>Unknown\<close> for an error that carries none.
\<close>

fun find_status :: "go_error \<Rightarrow> codes option"
  and find_status_list :: "go_error list \<Rightarrow> codes option" where
  "find_status (StatusError c msg) = Some c"
| "find_status (Wrap msg inner) = find_status inner"
| "find_status (Join errs) = find_status_list errs"
| "find_status (ErrorsNew msg) = None"
| "find_status (Errno n) = None"
| "find_status_list [] = None"
| "find_status_list (e # es) =
     (case find_status e of Some c \<Rightarrow> Some c | None \<Rightarrow> find_status_list es)"

definition status_Code :: "go_error \<Rightarrow> codes" where
  "status_Code err = (case find_status err of Some c \<Rightarrow> c | None \<Rightarrow> Unknown)"

text \<open>
  Modelled from the spec: \<open>group.ErrRBDGroupNotFound\<close>, the not-found error of the group
  package, is declared in a file that is not at hand. It is a package-level error value;
  only its identity matters.
\<close>

definition ErrRBDGroupNotFound :: go_error where
  "ErrRBDGroupNotFound = ErrorsNew ''RBD group not found''"

subsection \<open>The lock set\<close>

text \<open>
  Modelled from the spec: the type of \<open>VolumeGroupLocks\<close> is not at hand. It is a set
  of held names; \<open>TryAcquire\<close> fails when the name is held and takes it otherwise,
  \<open>Release\<close> frees it.
\<close>

definition TryAcquire :: "string \<Rightarrow> string set \<Rightarrow> bool \<times> string set" where
  "TryAcquire name locks = (if name \<in> locks then (False, locks) else (True, insert name locks))"

definition Release :: "string \<Rightarrow> string set \<Rightarrow> string set" where
  "Release name locks = locks - {name}"

subsection \<open>CreateVolumeGroupSnapshot\<close>

text \<open>
  Every function below returns, after its own result, the state of the collaborators
  and the calls it made, in order.
\<close>

text \<open>The loop that resolves the volumes; it stops at the first failure.\<close>

fun resolve_volumes ::
  "('w, 'vol, 'vg, 'gs, 'cr) backend \<Rightarrow> string list \<Rightarrow> nat \<Rightarrow> 'vol option list \<Rightarrow> 'w \<Rightarrow>
     go_error option \<times> 'vol option list \<times> 'w \<times> ('vol, 'vg, 'gs) event list" where
  "resolve_volumes mgr [] i volumes w = (None, volumes, w, [])"
| "resolve_volumes mgr (volID # ids) i volumes w =
     (case mgr_GetVolumeByID mgr volID w of
        (Inl err, w1) \<Rightarrow> (Some err, volumes, w1, [EvGetVolumeByID volID (Inl err)])
      | (Inr vol, w1) \<Rightarrow>
          (case resolve_volumes mgr ids (Suc i) (volumes[i := Some vol]) w1 of
             (r, volumes', w2, evs) \<Rightarrow> (r, volumes', w2, EvGetVolumeByID volID (Inr vol) # evs)))"

text \<open>
  The loop that prepares the volumes; it goes through all of them and collects the
  errors. The result is \<open>None\<close> when a volume is nil (the method call panics).
\<close>

fun prepare_volumes ::
  "('w, 'vol, 'vg, 'gs, 'cr) backend \<Rightarrow> 'cr \<Rightarrow> 'vol option list \<Rightarrow> go_error list \<Rightarrow> 'w \<Rightarrow>
     go_error list option \<times> 'w \<times> ('vol, 'vg, 'gs) event list" where
  "prepare_volumes mgr creds [] errList w = (Some errList, w, [])"
| "prepare_volumes mgr creds (None # rest) errList w = (None, w, [])"
| "prepare_volumes mgr creds (Some volume # rest) errList w =
     (case vol_PrepareVolumeForSnapshot mgr volume creds w of
        (err, w1) \<Rightarrow>
          (case prepare_volumes mgr creds rest
                  (case err of None \<Rightarrow> errList | Some e \<Rightarrow> errList @ [e]) w1 of
             (r, w2, evs) \<Rightarrow> (r, w2, EvPrepareVolumeForSnapshot volume err # evs)))"

text \<open>The loop that adds the volumes to the group; it stops at the first failure.\<close>

fun add_volumes ::
  "('w, 'vol, 'vg, 'gs, 'cr) backend \<Rightarrow> 'vg \<Rightarrow> 'vol option list \<Rightarrow> 'w \<Rightarrow>
     go_error option \<times> 'w \<times> ('vol, 'vg, 'gs) event list" where
  "add_volumes mgr vg [] w = (None, w, [])"
| "add_volumes mgr vg (volume # rest) w =
     (case vg_AddVolume mgr vg volume w of
        (Some err, w1) \<Rightarrow> (Some err, w1, [EvAddVolume vg volume (Some err)])
      | (None, w1) \<Rightarrow>
          (case add_volumes mgr vg rest w1 of
             (r, w2, evs) \<Rightarrow> (r, w2, EvAddVolume vg volume None # evs)))"

text \<open>
  The deferred cleanup. For every entry of \<open>volumes\<close>: when the group variable is set,
  the volume is removed from the group (an error is logged only); a volume that is not
  nil is destroyed. Then, when the group variable is set, the group is deleted (an
  error is logged only) and destroyed.
\<close>

definition remove_from_group ::
  "('w, 'vol, 'vg, 'gs, 'cr) backend \<Rightarrow> 'vg option \<Rightarrow> 'vol option \<Rightarrow> 'w \<Rightarrow>
     'w \<times> ('vol, 'vg, 'gs) event list" where
  "remove_from_group mgr vg volume w =
     (case vg of
        None \<Rightarrow> (w, [])
      | Some g \<Rightarrow>
          (case vg_RemoveVolume mgr g volume w of
             (vgErr, w1) \<Rightarrow> (w1, [EvRemoveVolume g volume vgErr])))"

definition destroy_volume ::
  "('w, 'vol, 'vg, 'gs, 'cr) backend \<Rightarrow> 'vol option \<Rightarrow> 'w \<Rightarrow> 'w \<times> ('vol, 'vg, 'gs) event list" where
  "destroy_volume mgr volume w =
     (case volume of
        None \<Rightarrow> (w, [])
      | Some v \<Rightarrow> (vol_Destroy mgr v w, [EvDestroyVolume v]))"

fun cleanup_volumes ::
  "('w, 'vol, 'vg, 'gs, 'cr) backend \<Rightarrow> 'vg option \<Rightarrow> 'vol option list \<Rightarrow> 'w \<Rightarrow>
     'w \<times> ('vol, 'vg, 'gs) event list" where
  "cleanup_volumes mgr vg [] w = (w, [])"
| "cleanup_volumes mgr vg (volume # rest) w =
     (case remove_from_group mgr vg volume w of
        (w1, evs1) \<Rightarrow>
          (case destroy_volume mgr volume w1 of
             (w2, evs2) \<Rightarrow>
               (case cleanup_volumes mgr vg rest w2 of
                  (w3, evs3) \<Rightarrow> (w3, evs1 @ evs2 @ evs3))))"

definition cleanup ::
  "('w, 'vol, 'vg, 'gs, 'cr) backend \<Rightarrow> 'vg option \<Rightarrow> 'vol option list \<Rightarrow> 'w \<Rightarrow>
     'w \<times> ('vol, 'vg, 'gs) event list" where
  "cleanup mgr vg volumes w =
     (case cleanup_volumes mgr vg volumes w of
        (w1, evs1) \<Rightarrow>
          (case vg of
             None \<Rightarrow> (w1, evs1)
           | Some g \<Rightarrow>
               (case vg_Delete mgr g w1 of
                  (vgErr, w2) \<Rightarrow>
                    (vg_Destroy mgr g w2,
                     evs1 @ [EvDeleteVolumeGroup g vgErr, EvDestroyVolumeGroup g]))))"

text \<open>
  The conversion of a group snapshot that was found or made, followed by its deferred
  \<open>Destroy\<close>.
\<close>

definition convert_snapshot ::
  "('w, 'vol, 'vg, 'gs, 'cr) backend \<Rightarrow> 'gs \<Rightarrow> 'w \<Rightarrow>
     csi_VolumeGroupSnapshot rpc \<times> 'w \<times> ('vol, 'vg, 'gs) event list" where
  "convert_snapshot mgr groupSnapshot w =
     (case vgs_ToCSI mgr groupSnapshot w of
        (r, w1) \<Rightarrow>
          ((case r of Inl csiErr \<Rightarrow> Status Aborted | Inr csiVGS \<Rightarrow> Reply csiVGS),
           vgs_Destroy mgr groupSnapshot w1,
           [EvToCSI groupSnapshot r, EvDestroyVolumeGroupSnapshot groupSnapshot]))"

text \<open>
  The steps from the preparation of the volumes to the conversion of the new group
  snapshot. The second component is the value of the variable \<open>vg\<close> at the return.
\<close>

definition snapshot_volumes ::
  "('w, 'vol, 'vg, 'gs, 'cr) backend \<Rightarrow> CreateVolumeGroupSnapshotRequest \<Rightarrow> 'cr \<Rightarrow>
     'vol option list \<Rightarrow> 'w \<Rightarrow>
     csi_VolumeGroupSnapshot rpc \<times> 'vg option \<times> 'w \<times> ('vol, 'vg, 'gs) event list" where
  "snapshot_volumes mgr req creds volumes w =
     (case prepare_volumes mgr creds volumes [] w of
        (None, w1, evs1) \<Rightarrow> (Panic, None, w1, evs1)
      | (Some (e # errList), w1, evs1) \<Rightarrow> (Status (status_Code e), None, w1, evs1)
      | (Some [], w1, evs1) \<Rightarrow>
          (case mgr_CreateVolumeGroup mgr (Name req @ ''-vg'') w1 of
             (Inl err, w2) \<Rightarrow>
               (Status Internal, None, w2,
                evs1 @ [EvCreateVolumeGroup (Name req @ ''-vg'') (Inl err)])
           | (Inr vg, w2) \<Rightarrow>
               (case add_volumes mgr vg volumes w2 of
                  (Some err, w3, evs3) \<Rightarrow>
                    (Status Aborted, Some vg, w3,
                     evs1 @ [EvCreateVolumeGroup (Name req @ ''-vg'') (Inr vg)] @ evs3)
                | (None, w3, evs3) \<Rightarrow>
                    (case mgr_CreateVolumeGroupSnapshot mgr vg (Name req) w3 of
                       (Inl err, w4) \<Rightarrow>
                         (Status Aborted, Some vg, w4,
                          evs1 @ [EvCreateVolumeGroup (Name req @ ''-vg'') (Inr vg)] @ evs3 @
                          [EvCreateVolumeGroupSnapshot vg (Name req) (Inl err)])
                     | (Inr groupSnapshot, w4) \<Rightarrow>
                         (case convert_snapshot mgr groupSnapshot w4 of
                            (r, w5, evs5) \<Rightarrow>
                              (r, Some vg, w5,
                               evs1 @ [EvCreateVolumeGroup (Name req @ ''-vg'') (Inr vg)] @ evs3 @
                               [EvCreateVolumeGroupSnapshot vg (Name req) (Inr groupSnapshot)] @
                               evs5))))))"

text \<open>
  The steps after the volumes are resolved: the lookup by name, and for a group
  snapshot that is not there the credentials and \<open>snapshot_volumes\<close>.
\<close>

definition find_or_create ::
  "('w, 'vol, 'vg, 'gs, 'cr) backend \<Rightarrow> CreateVolumeGroupSnapshotRequest \<Rightarrow>
     'vol option list \<Rightarrow> 'w \<Rightarrow>
     csi_VolumeGroupSnapshot rpc \<times> 'vg option \<times> 'w \<times> ('vol, 'vg, 'gs) event list" where
  "find_or_create mgr req volumes w =
     (case mgr_GetVolumeGroupSnapshotByName mgr (Name req) w of
        ((Some groupSnapshot, err), w1) \<Rightarrow>
          (case convert_snapshot mgr groupSnapshot w1 of
             (r, w2, evs2) \<Rightarrow>
               (r, None, w2,
                EvGetVolumeGroupSnapshotByName (Name req) (Some groupSnapshot) err # evs2))
      | ((None, err), w1) \<Rightarrow>
          (case NewUserCredentials mgr (Secrets req) of
             Inl credErr \<Rightarrow>
               (Status Internal, None, w1,
                [EvGetVolumeGroupSnapshotByName (Name req) None err,
                 EvNewUserCredentials (Some credErr)])
           | Inr creds \<Rightarrow>
               (case snapshot_volumes mgr req creds volumes w1 of
                  (r, vg, w2, evs2) \<Rightarrow>
                    (r, vg, DeleteCredentials mgr creds w2,
                     [EvGetVolumeGroupSnapshotByName (Name req) None err,
                      EvNewUserCredentials None] @ evs2 @ [EvDeleteCredentials]))))"

text \<open>
  The body between the registration of the cleanup and the return: the result, and
  the values of \<open>vg\<close> and \<open>volumes\<close> that the cleanup will see.
\<close>

definition create_body ::
  "('w, 'vol, 'vg, 'gs, 'cr) backend \<Rightarrow> CreateVolumeGroupSnapshotRequest \<Rightarrow> 'w \<Rightarrow>
     csi_VolumeGroupSnapshot rpc \<times> 'vg option \<times> 'vol option list \<times> 'w \<times>
     ('vol, 'vg, 'gs) event list" where
  "create_body mgr req w =
     (case resolve_volumes mgr (SourceVolumeIds req) 0
             (replicate (length (SourceVolumeIds req)) None) w of
        (Some err, volumes, w1, evs1) \<Rightarrow> (Status InvalidArgument, None, volumes, w1, evs1)
      | (None, volumes, w1, evs1) \<Rightarrow>
          (case find_or_create mgr req volumes w1 of
             (r, vg, w2, evs2) \<Rightarrow> (r, vg, volumes, w2, evs1 @ evs2)))"

text \<open>
  \<open>ControllerServer.CreateVolumeGroupSnapshot\<close>: the result, the lock set and the
  state of the collaborators after the call, and the calls made.
\<close>

definition CreateVolumeGroupSnapshot ::
  "('w, 'vol, 'vg, 'gs, 'cr) backend \<Rightarrow> CreateVolumeGroupSnapshotRequest \<Rightarrow>
     string set \<Rightarrow> 'w \<Rightarrow>
     csi_VolumeGroupSnapshot rpc \<times> string set \<times> 'w \<times> ('vol, 'vg, 'gs) event list" where
  "CreateVolumeGroupSnapshot mgr req locks w =
     (case TryAcquire (Name req) locks of
        (False, locks1) \<Rightarrow> (Status Aborted, locks1, w, [EvTryAcquire (Name req) False])
      | (True, locks1) \<Rightarrow>
          (case create_body mgr req w of
             (r, vg, volumes, w1, evs1) \<Rightarrow>
               (case cleanup mgr vg volumes w1 of
                  (w2, evs2) \<Rightarrow>
                    (r, Release (Name req) locks1, mgr_Destroy mgr w2,
                     [EvTryAcquire (Name req) True] @ evs1 @ evs2 @
                     [EvDestroyManager, EvRelease (Name req)]))))"

subsection \<open>DeleteVolumeGroupSnapshot and GetVolumeGroupSnapshot\<close>



subsection \<open>Reading a run\<close>

text \<open>The four components of what a controller call returns.\<close>

definition rpc_result :: "'a \<times> 'b \<times> 'c \<times> 'd \<Rightarrow> 'a" where
  "rpc_result x = fst x"

definition rpc_locks :: "'a \<times> 'b \<times> 'c \<times> 'd \<Rightarrow> 'b" where
  "rpc_locks x = fst (snd x)"

definition rpc_world :: "'a \<times> 'b \<times> 'c \<times> 'd \<Rightarrow> 'c" where
  "rpc_world x = fst (snd (snd x))"

definition rpc_calls :: "'a \<times> 'b \<times> 'c \<times> 'd \<Rightarrow> 'd" where
  "rpc_calls x = snd (snd (snd x))"

text \<open>
  The calls of the loops, given the volumes \<open>vs\<close> that were resolved and the results
  \<open>prs\<close> of the preparations and \<open>rs\<close> of the removals: each volume is looked up,
  prepared, added, and in the cleanup removed from the group and destroyed.
\<close>

definition resolved_calls :: "string list \<Rightarrow> 'vol list \<Rightarrow> ('vol, 'vg, 'gs) event list" where
  "resolved_calls ids vs = map (\<lambda>(volID, v). EvGetVolumeByID volID (Inr v)) (zip ids vs)"

definition prepare_calls :: "'vol list \<Rightarrow> go_error option list \<Rightarrow> ('vol, 'vg, 'gs) event list" where
  "prepare_calls vs rs = map (\<lambda>(v, r). EvPrepareVolumeForSnapshot v r) (zip vs rs)"

fun failures :: "go_error option list \<Rightarrow> go_error list" where
  "failures [] = []"
| "failures (None # rs) = failures rs"
| "failures (Some e # rs) = e # failures rs"

definition added_calls :: "'vg \<Rightarrow> 'vol list \<Rightarrow> ('vol, 'vg, 'gs) event list" where
  "added_calls g vs = map (\<lambda>v. EvAddVolume g (Some v) None) vs"

definition destroy_calls :: "'vol list \<Rightarrow> ('vol, 'vg, 'gs) event list" where
  "destroy_calls vs = map EvDestroyVolume vs"

definition removal_calls :: "'vg \<Rightarrow> 'vol list \<Rightarrow> go_error option list \<Rightarrow> ('vol, 'vg, 'gs) event list" where
  "removal_calls g vs rs =
     concat (map (\<lambda>(v, r). [EvRemoveVolume g (Some v) r, EvDestroyVolume v]) (zip vs rs))"

definition cleanup_calls ::
  "'vg \<Rightarrow> 'vol list \<Rightarrow> go_error option list \<Rightarrow> go_error option \<Rightarrow> ('vol, 'vg, 'gs) event list" where
  "cleanup_calls g vs rs r =
     removal_calls g vs rs @ [EvDeleteVolumeGroup g r, EvDestroyVolumeGroup g]"

definition converted :: "go_error + csi_VolumeGroupSnapshot \<Rightarrow> csi_VolumeGroupSnapshot rpc" where
  "converted conv = (case conv of Inl csiErr \<Rightarrow> Status Aborted | Inr csiVGS \<Rightarrow> Reply csiVGS)"

text \<open>
  The runs of \<open>CreateVolumeGroupSnapshot\<close>: for each way through the function, its
  result and the calls it makes, from the attempt to take the lock to its release.
\<close>

inductive create_path ::
  "CreateVolumeGroupSnapshotRequest \<Rightarrow> string set \<Rightarrow> csi_VolumeGroupSnapshot rpc \<Rightarrow>
     ('vol, 'vg, 'gs) event list \<Rightarrow> bool"
  for req :: CreateVolumeGroupSnapshotRequest and locks :: "string set" where
  lock_held:
    "Name req \<in> locks \<Longrightarrow>
     create_path req locks (Status Aborted) [EvTryAcquire (Name req) False]"
| unresolved:
    "Name req \<notin> locks \<Longrightarrow> length vs < length (SourceVolumeIds req) \<Longrightarrow>
     create_path req locks (Status InvalidArgument)
       (EvTryAcquire (Name req) True #
        resolved_calls (take (length vs) (SourceVolumeIds req)) vs @
        [EvGetVolumeByID (SourceVolumeIds req ! length vs) (Inl err)] @
        destroy_calls vs @ [EvDestroyManager, EvRelease (Name req)])"
| existing:
    "Name req \<notin> locks \<Longrightarrow> length vs = length (SourceVolumeIds req) \<Longrightarrow>
     create_path req locks (converted conv)
       (EvTryAcquire (Name req) True # resolved_calls (SourceVolumeIds req) vs @
        [EvGetVolumeGroupSnapshotByName (Name req) (Some gs) lookupErr,
         EvToCSI gs conv, EvDestroyVolumeGroupSnapshot gs] @
        destroy_calls vs @ [EvDestroyManager, EvRelease (Name req)])"
| no_credentials:
    "Name req \<notin> locks \<Longrightarrow> length vs = length (SourceVolumeIds req) \<Longrightarrow>
     create_path req locks (Status Internal)
       (EvTryAcquire (Name req) True # resolved_calls (SourceVolumeIds req) vs @
        [EvGetVolumeGroupSnapshotByName (Name req) None lookupErr,
         EvNewUserCredentials (Some credErr)] @
        destroy_calls vs @ [EvDestroyManager, EvRelease (Name req)])"
| unprepared:
    "Name req \<notin> locks \<Longrightarrow> length vs = length (SourceVolumeIds req) \<Longrightarrow>
     length prs = length vs \<Longrightarrow> failures prs = e # es \<Longrightarrow>
     create_path req locks (Status (status_Code e))
       (EvTryAcquire (Name req) True # resolved_calls (SourceVolumeIds req) vs @
        [EvGetVolumeGroupSnapshotByName (Name req) None lookupErr, EvNewUserCredentials None] @
        prepare_calls vs prs @ [EvDeleteCredentials] @
        destroy_calls vs @ [EvDestroyManager, EvRelease (Name req)])"
| no_group:
    "Name req \<notin> locks \<Longrightarrow> length vs = length (SourceVolumeIds req) \<Longrightarrow>
     length prs = length vs \<Longrightarrow> failures prs = [] \<Longrightarrow>
     create_path req locks (Status Internal)
       (EvTryAcquire (Name req) True # resolved_calls (SourceVolumeIds req) vs @
        [EvGetVolumeGroupSnapshotByName (Name req) None lookupErr, EvNewUserCredentials None] @
        prepare_calls vs prs @
        [EvCreateVolumeGroup (Name req @ ''-vg'') (Inl groupErr), EvDeleteCredentials] @
        destroy_calls vs @ [EvDestroyManager, EvRelease (Name req)])"
| not_added:
    "Name req \<notin> locks \<Longrightarrow> length vs = length (SourceVolumeIds req) \<Longrightarrow>
     length prs = length vs \<Longrightarrow> failures prs = [] \<Longrightarrow>
     k < length vs \<Longrightarrow> length rrs = length vs \<Longrightarrow>
     create_path req locks (Status Aborted)
       (EvTryAcquire (Name req) True # resolved_calls (SourceVolumeIds req) vs @
        [EvGetVolumeGroupSnapshotByName (Name req) None lookupErr, EvNewUserCredentials None] @
        prepare_calls vs prs @
        [EvCreateVolumeGroup (Name req @ ''-vg'') (Inr g)] @ added_calls g (take k vs) @
        [EvAddVolume g (Some (vs ! k)) (Some addErr), EvDeleteCredentials] @
        cleanup_calls g vs rrs delErr @ [EvDestroyManager, EvRelease (Name req)])"
| no_snapshot:
    "Name req \<notin> locks \<Longrightarrow> length vs = length (SourceVolumeIds req) \<Longrightarrow>
     length prs = length vs \<Longrightarrow> failures prs = [] \<Longrightarrow> length rrs = length vs \<Longrightarrow>
     create_path req locks (Status Aborted)
       (EvTryAcquire (Name req) True # resolved_calls (SourceVolumeIds req) vs @
        [EvGetVolumeGroupSnapshotByName (Name req) None lookupErr, EvNewUserCredentials None] @
        prepare_calls vs prs @
        [EvCreateVolumeGroup (Name req @ ''-vg'') (Inr g)] @ added_calls g vs @
        [EvCreateVolumeGroupSnapshot g (Name req) (Inl snapErr), EvDeleteCredentials] @
        cleanup_calls g vs rrs delErr @ [EvDestroyManager, EvRelease (Name req)])"
| snapshot_taken:
    "Name req \<notin> locks \<Longrightarrow> length vs = length (SourceVolumeIds req) \<Longrightarrow>
     length prs = length vs \<Longrightarrow> failures prs = [] \<Longrightarrow> length rrs = length vs \<Longrightarrow>
     create_path req locks (converted conv)
       (EvTryAcquire (Name req) True # resolved_calls (SourceVolumeIds req) vs @
        [EvGetVolumeGroupSnapshotByName (Name req) None lookupErr, EvNewUserCredentials None] @
        prepare_calls vs prs @
        [EvCreateVolumeGroup (Name req @ ''-vg'') (Inr g)] @ added_calls g vs @
        [EvCreateVolumeGroupSnapshot g (Name req) (Inr gs),
         EvToCSI gs conv, EvDestroyVolumeGroupSnapshot gs, EvDeleteCredentials] @
        cleanup_calls g vs rrs delErr @ [EvDestroyManager, EvRelease (Name req)])"

text \<open>
  The calls that change the storage cluster, and the volumes on which \<open>RemoveVolume\<close>
  is called in a run, in order.
\<close>

fun is_mutation :: "('vol, 'vg, 'gs) event \<Rightarrow> bool" where
  "is_mutation (EvPrepareVolumeForSnapshot v r) = True"
| "is_mutation (EvCreateVolumeGroup n r) = True"
| "is_mutation (EvAddVolume g v r) = True"
| "is_mutation (EvRemoveVolume g v r) = True"
| "is_mutation (EvDeleteVolumeGroup g r) = True"
| "is_mutation (EvCreateVolumeGroupSnapshot g n r) = True"
| "is_mutation (EvDeleteVolumeGroupSnapshot s r) = True"
| "is_mutation e = False"

fun removed_volumes :: "('vol, 'vg, 'gs) event list \<Rightarrow> 'vol option list" where
  "removed_volumes [] = []"
| "removed_volumes (EvRemoveVolume g v r # evs) = v # removed_volumes evs"
| "removed_volumes (e # evs) = removed_volumes evs"

section \<open>A storage cluster for the manager\<close>

text \<open>
  Modelled from the spec: the manager, the volume group and the group snapshot are in
  packages that are not at hand. This is the storage the specification describes:
  volumes with an identifier, groups with a name and their member volumes (a volume is
  in at most one group), and group snapshots found by name or by identifier, with one
  member snapshot for each volume of the group. The handles of a volume and of a group
  are their identifier and name.
\<close>

record group_snapshot =
  gs_id :: string
  gs_name :: string
  gs_created :: nat
  gs_ready :: bool
  gs_members :: "(string \<times> string) list"

record cluster =
  cl_volumes :: "string list"
  cl_groups :: "(string \<times> string list) list"
  cl_snapshots :: "group_snapshot list"
  cl_clock :: nat

text \<open>
  Modelled from the spec: \<open>GetVolumeByID\<close> of the manager resolves the identifier of a
  volume of the cluster and fails for any other.
\<close>

definition st_GetVolumeByID :: "string \<Rightarrow> cluster \<Rightarrow> (go_error + string) \<times> cluster" where
  "st_GetVolumeByID volID c =
     (if volID \<in> set (cl_volumes c) then Inr volID else Inl (Wrap ''volume'' ErrImageNotFound), c)"

text \<open>
  Modelled from the spec: \<open>GetVolumeGroupSnapshotByName\<close> and
  \<open>GetVolumeGroupSnapshotByID\<close> of the manager return the group snapshot of that name
  or identifier, or the not-found error.
\<close>

definition st_GetVolumeGroupSnapshotByName ::
  "string \<Rightarrow> cluster \<Rightarrow> (group_snapshot option \<times> go_error option) \<times> cluster" where
  "st_GetVolumeGroupSnapshotByName name c =
     (case find (\<lambda>s. gs_name s = name) (cl_snapshots c) of
        Some s \<Rightarrow> ((Some s, None), c)
      | None \<Rightarrow> ((None, Some ErrRBDGroupNotFound), c))"

definition st_GetVolumeGroupSnapshotByID ::
  "string \<Rightarrow> cluster \<Rightarrow> (go_error + group_snapshot) \<times> cluster" where
  "st_GetVolumeGroupSnapshotByID gsID c =
     (case find (\<lambda>s. gs_id s = gsID) (cl_snapshots c) of
        Some s \<Rightarrow> (Inr s, c)
      | None \<Rightarrow> (Inl (Wrap ''group snapshot'' ErrRBDGroupNotFound), c))"

text \<open>
  Modelled from the spec: \<open>CreateVolumeGroup\<close> of the manager makes a new group without
  members; it fails when a group of that name is there.
\<close>

definition st_CreateVolumeGroup :: "string \<Rightarrow> cluster \<Rightarrow> (go_error + string) \<times> cluster" where
  "st_CreateVolumeGroup name c =
     (if name \<in> fst ` set (cl_groups c) then (Inl ErrObjectExists, c)
      else (Inr name, c\<lparr>cl_groups := cl_groups c @ [(name, [])]\<rparr>))"

text \<open>
  Modelled from the spec: \<open>AddVolume\<close> of a group fails when the volume is a member of
  another group, and appends the volume to the members otherwise; \<open>RemoveVolume\<close> takes
  the volume out of the members (nothing changes for a volume that is not a member);
  \<open>Delete\<close> removes the group.
\<close>

definition grouped_elsewhere :: "cluster \<Rightarrow> string \<Rightarrow> string \<Rightarrow> bool" where
  "grouped_elsewhere c g volID = (\<exists>(g', members) \<in> set (cl_groups c). g' \<noteq> g \<and> volID \<in> set members)"

definition st_AddVolume :: "string \<Rightarrow> string option \<Rightarrow> cluster \<Rightarrow> go_error option \<times> cluster" where
  "st_AddVolume g volume c =
     (case volume of
        None \<Rightarrow> (Some (ErrorsNew ''no volume''), c)
      | Some volID \<Rightarrow>
          if grouped_elsewhere c g volID then (Some (ErrorsNew ''volume is in another group''), c)
          else if g \<notin> fst ` set (cl_groups c) then (Some ErrRBDGroupNotFound, c)
          else (None, c\<lparr>cl_groups :=
                  map (\<lambda>(g', members). if g' = g then (g', members @ [volID]) else (g', members))
                    (cl_groups c)\<rparr>))"

definition st_RemoveVolume :: "string \<Rightarrow> string option \<Rightarrow> cluster \<Rightarrow> go_error option \<times> cluster" where
  "st_RemoveVolume g volume c =
     (case volume of
        None \<Rightarrow> (Some (ErrorsNew ''no volume''), c)
      | Some volID \<Rightarrow>
          (None, c\<lparr>cl_groups :=
             map (\<lambda>(g', members). if g' = g then (g', removeAll volID members) else (g', members))
               (cl_groups c)\<rparr>))"

definition st_DeleteVolumeGroup :: "string \<Rightarrow> cluster \<Rightarrow> go_error option \<times> cluster" where
  "st_DeleteVolumeGroup g c = (None, c\<lparr>cl_groups := filter (\<lambda>(g', members). g' \<noteq> g) (cl_groups c)\<rparr>)"

text \<open>
  Modelled from the spec: \<open>CreateVolumeGroupSnapshot\<close> of the manager makes, in one
  step, a group snapshot of the given name with an identifier of its own and one member
  snapshot for each volume of the group, and stores it; it fails when the group is not
  there or the name is taken.
\<close>

definition new_group_snapshot :: "string \<Rightarrow> string list \<Rightarrow> nat \<Rightarrow> group_snapshot" where
  "new_group_snapshot name members now =
     \<lparr>gs_id = ''id-'' @ name, gs_name = name, gs_created = now, gs_ready = True,
      gs_members = map (\<lambda>volID. (volID, volID @ ''@'' @ name)) members\<rparr>"

definition st_CreateVolumeGroupSnapshot ::
  "string \<Rightarrow> string \<Rightarrow> cluster \<Rightarrow> (go_error + group_snapshot) \<times> cluster" where
  "st_CreateVolumeGroupSnapshot g name c =
     (case map_of (cl_groups c) g of
        None \<Rightarrow> (Inl ErrRBDGroupNotFound, c)
      | Some members \<Rightarrow>
          if find (\<lambda>s. gs_name s = name) (cl_snapshots c) \<noteq> None then (Inl ErrSnapNameConflict, c)
          else (Inr (new_group_snapshot name members (cl_clock c)),
                c\<lparr>cl_snapshots := cl_snapshots c @ [new_group_snapshot name members (cl_clock c)],
                  cl_clock := Suc (cl_clock c)\<rparr>))"

text \<open>
  Modelled from the spec: \<open>ToCSI\<close> of a group snapshot gives the response of the
  controller, and fails when the identifier or the name is not set; \<open>Delete\<close> removes
  the group snapshot from the cluster.
\<close>

definition st_ToCSI :: "group_snapshot \<Rightarrow> go_error + csi_VolumeGroupSnapshot" where
  "st_ToCSI s =
     (if gs_id s = [] \<or> gs_name s = [] then Inl (ErrorsNew ''missing identity'')
      else Inr \<lparr>GroupSnapshotId = gs_id s,
                Snapshots = map (\<lambda>(volID, handle). \<lparr>SnapshotId = handle, SourceVolumeId = volID\<rparr>)
                              (gs_members s),
                CreationTime = gs_created s, ReadyToUse = gs_ready s\<rparr>)"

definition st_DeleteVolumeGroupSnapshot :: "group_snapshot \<Rightarrow> cluster \<Rightarrow> go_error option \<times> cluster" where
  "st_DeleteVolumeGroupSnapshot s c =
     (None, c\<lparr>cl_snapshots := filter (\<lambda>s'. gs_id s' \<noteq> gs_id s) (cl_snapshots c)\<rparr>)"

text \<open>
  Modelled from the spec: the manager on this cluster. The credentials are always
  built, preparing a volume succeeds, and releasing a handle changes nothing.
\<close>

definition spec_mgr :: "(cluster, string, string, group_snapshot, unit) backend" where
  "spec_mgr =
     \<lparr>mgr_GetVolumeByID = st_GetVolumeByID,
      mgr_GetVolumeGroupSnapshotByName = st_GetVolumeGroupSnapshotByName,
      mgr_GetVolumeGroupSnapshotByID = st_GetVolumeGroupSnapshotByID,
      mgr_CreateVolumeGroup = st_CreateVolumeGroup,
      mgr_CreateVolumeGroupSnapshot = st_CreateVolumeGroupSnapshot,
      mgr_Destroy = (\<lambda>c. c),
      NewUserCredentials = (\<lambda>secrets. Inr ()),
      DeleteCredentials = (\<lambda>creds c. c),
      vol_PrepareVolumeForSnapshot = (\<lambda>volume creds c. (None, c)),
      vol_Destroy = (\<lambda>volume c. c),
      vg_AddVolume = st_AddVolume,
      vg_RemoveVolume = st_RemoveVolume,
      vg_Delete = st_DeleteVolumeGroup,
      vg_Destroy = (\<lambda>g c. c),
      vgs_ToCSI = (\<lambda>s c. (st_ToCSI s, c)),
      vgs_Delete = st_DeleteVolumeGroupSnapshot,
      vgs_Destroy = (\<lambda>s c. c)\<rparr>"


text \<open>Requests, clusters and failing managers for the examples.\<close>

definition request :: "string \<Rightarrow> string list \<Rightarrow> CreateVolumeGroupSnapshotRequest" where
  "request name ids = \<lparr>Name = name, SourceVolumeIds = ids, Parameters = Map.empty, Secrets = Map.empty\<rparr>"

definition three_volumes :: cluster where
  "three_volumes = \<lparr>cl_volumes = [''v1'', ''v2'', ''v3''], cl_groups = [], cl_snapshots = [],
                     cl_clock = 7\<rparr>"

definition unidentified_snapshot :: group_snapshot where
  "unidentified_snapshot =
     \<lparr>gs_id = [], gs_name = ''vgs1'', gs_created = 3, gs_ready = True,
      gs_members = [(''v1'', ''v1@vgs1'')]\<rparr>"

definition snapshotted :: cluster where
  "snapshotted = three_volumes\<lparr>cl_snapshots := [new_group_snapshot ''vgs1'' [''v1'', ''v2'', ''v3''] 7]\<rparr>"

definition v2_grouped :: cluster where
  "v2_grouped = three_volumes\<lparr>cl_groups := [(''other'', [''v2''])]\<rparr>"

definition timed_out :: go_error where
  "timed_out = ErrorsNew ''connection timed out''"

definition lookup_times_out :: "(cluster, string, string, group_snapshot, unit) backend" where
  "lookup_times_out =
     spec_mgr\<lparr>mgr_GetVolumeGroupSnapshotByName := (\<lambda>name c. ((None, Some timed_out), c)),
              mgr_GetVolumeGroupSnapshotByID := (\<lambda>gsID c. (Inl timed_out, c))\<rparr>"


definition vgs1_response :: csi_VolumeGroupSnapshot where
  "vgs1_response =
     \<lparr>GroupSnapshotId = ''id-vgs1'',
      Snapshots = [\<lparr>SnapshotId = ''v1@vgs1'', SourceVolumeId = ''v1''\<rparr>,
                   \<lparr>SnapshotId = ''v2@vgs1'', SourceVolumeId = ''v2''\<rparr>,
                   \<lparr>SnapshotId = ''v3@vgs1'', SourceVolumeId = ''v3''\<rparr>],
      CreationTime = 7, ReadyToUse = True\<rparr>"

section \<open>Properties of the error helpers\<close>




section \<open>Properties of the QoS calculation\<close>

lemma ParseInt_empty: "ParseInt [] = Inl ErrSyntax"
  by (simp add: ParseInt_def)

lemma init_QosParameters_fields [simp]:
  "BaseVolSize (init_QosParameters rv) = BaseVolSize rv"
  "RequestedVolSize (init_QosParameters rv) = RequestedVolSize rv"
  by (simp_all add: init_QosParameters_def)

lemma qos_value_set: "qos_value (set_QosParameter rv k v) k = Some v"
  by (simp add: qos_value_def set_QosParameter_def)

lemma wrap64_id: "in_int64 x \<Longrightarrow> wrap64 x = x"
  by (simp add: in_int64_def wrap64_def)

lemma div_oneGB_in_int64:
  assumes "0 \<le> a" "in_int64 a"
  shows "in_int64 (a div 1073741824)"
proof -
  have "a div 1073741824 \<le> a" using assms(1) by (simp add: int_div_le_self)
  moreover have "0 \<le> a div 1073741824" using assms(1) by (simp add: pos_imp_zdiv_nonneg_iff)
  ultimately show ?thesis using assms(2) by (simp add: in_int64_def)
qed

lemma quo64_pos:
  assumes "0 \<le> a" "in_int64 a"
  shows "quo64 a oneGB = a div 2 ^ 30"
proof -
  have "sgn a * sgn oneGB * (\<bar>a\<bar> div \<bar>oneGB\<bar>) = a div 1073741824"
    using assms(1) by (cases "a = 0") (simp_all add: oneGB_def)
  then show ?thesis
    using div_oneGB_in_int64 [OF assms] by (simp add: quo64_def wrap64_id)
qed

lemma calc_base_only:
  assumes "ParseInt (baseLimit qos) = Inr b" "perGiBLimit qos = [] \<or> BaseVolSize rv = []"
  shows "calcQosBasedOnCapacity rv qos =
           (None, set_QosParameter (init_QosParameters rv) (baseLimitType qos) (baseLimit qos))"
proof -
  have "baseLimit qos \<noteq> []" using assms(1) ParseInt_empty by auto
  then show ?thesis
    using assms by (auto simp: calcQosBasedOnCapacity_def)
qed

lemma calc_small:
  assumes "ParseInt (baseLimit qos) = Inr b" "ParseInt (perGiBLimit qos) = Inr p"
    "ParseInt (BaseVolSize rv) = Inr v" "RequestedVolSize rv \<le> v"
  shows "calcQosBasedOnCapacity rv qos =
           (None, set_QosParameter (init_QosParameters rv) (baseLimitType qos) (baseLimit qos))"
proof -
  have "baseLimit qos \<noteq> []" "perGiBLimit qos \<noteq> []" "BaseVolSize rv \<noteq> []"
    using assms ParseInt_empty by auto
  then show ?thesis
    using assms by (auto simp: calcQosBasedOnCapacity_def)
qed

lemma calc_large:
  assumes "ParseInt (baseLimit qos) = Inr b" "ParseInt (perGiBLimit qos) = Inr p"
    "ParseInt (BaseVolSize rv) = Inr v" "v < RequestedVolSize rv"
  shows "calcQosBasedOnCapacity rv qos =
           (None, set_QosParameter (init_QosParameters rv) (baseLimitType qos)
              (FormatInt (add64 b (mul64 (quo64 (sub64 (RequestedVolSize rv) v) oneGB) p))))"
proof -
  have "baseLimit qos \<noteq> []" "perGiBLimit qos \<noteq> []" "BaseVolSize rv \<noteq> []"
    using assms ParseInt_empty by auto
  then show ?thesis
    using assms by (auto simp: calcQosBasedOnCapacity_def Let_def)
qed

lemma capacity_exact:
  assumes "v < r" "in_int64 (r - v)" "in_int64 ((r - v) div 2 ^ 30 * p)"
    "in_int64 (b + (r - v) div 2 ^ 30 * p)"
  shows "add64 b (mul64 (quo64 (sub64 r v) oneGB) p) = b + (r - v) div 2 ^ 30 * p"
proof -
  have 1: "sub64 r v = r - v" using assms(2) by (simp add: sub64_def wrap64_id)
  have 2: "quo64 (r - v) oneGB = (r - v) div 2 ^ 30"
    using assms(1,2) by (intro quo64_pos) simp_all
  show ?thesis
    using assms(3,4) by (simp add: 1 2 add64_def mul64_def wrap64_id)
qed

lemma ParseInt_test_values:
  "ParseInt ''2000'' = Inr 2000" "ParseInt ''20'' = Inr 20"
  "ParseInt ''21474836480'' = Inr 21474836480"
  "ParseInt ''9223372036854775807'' = Inr 9223372036854775807"
  "ParseInt ''1'' = Inr 1" "ParseInt ''1073741824'' = Inr 1073741824"
  by (simp_all add: ParseInt_def ParseUint_def is_digit_def)

text \<open>
  C9, as the code has it. When the base limit parses to \<open>b\<close>: without a per-GiB limit or
  a base volume size the parameter is the base limit as given; with both, parsing to
  \<open>p\<close> and \<open>v\<close>, it is the base limit as given for a requested size up to \<open>v\<close>, and
  above \<open>v\<close> it is the decimal form of \<open>b + ((size - v) / 2^30) * p\<close> computed in
  wrapping 64-bit arithmetic, which is the exact value whenever the difference, the
  product and the sum fit in 64 bits. No error is returned in any of these cases.
\<close>

theorem calcQosBasedOnCapacity_limit:
  assumes "ParseInt (baseLimit qos) = Inr b"
  shows
    "(perGiBLimit qos = [] \<or> BaseVolSize rv = [] \<longrightarrow>
        fst (calcQosBasedOnCapacity rv qos) = None \<and>
        qos_value (snd (calcQosBasedOnCapacity rv qos)) (baseLimitType qos) = Some (baseLimit qos)) \<and>
     (ParseInt (perGiBLimit qos) = Inr p \<and> ParseInt (BaseVolSize rv) = Inr v \<longrightarrow>
        fst (calcQosBasedOnCapacity rv qos) = None \<and>
        (RequestedVolSize rv \<le> v \<longrightarrow>
           qos_value (snd (calcQosBasedOnCapacity rv qos)) (baseLimitType qos) =
             Some (baseLimit qos)) \<and>
        (v < RequestedVolSize rv \<longrightarrow>
           qos_value (snd (calcQosBasedOnCapacity rv qos)) (baseLimitType qos) =
             Some (FormatInt
               (wrap64 (b + wrap64 (quo64 (wrap64 (RequestedVolSize rv - v)) oneGB * p))))) \<and>
        (v < RequestedVolSize rv \<and> in_int64 (RequestedVolSize rv - v) \<and>
         in_int64 ((RequestedVolSize rv - v) div 2 ^ 30 * p) \<and>
         in_int64 (b + (RequestedVolSize rv - v) div 2 ^ 30 * p) \<longrightarrow>
           qos_value (snd (calcQosBasedOnCapacity rv qos)) (baseLimitType qos) =
             Some (FormatInt (b + (RequestedVolSize rv - v) div 2 ^ 30 * p))))"
proof (intro conjI impI)
  assume "perGiBLimit qos = [] \<or> BaseVolSize rv = []"
  from calc_base_only [OF assms this]
  show "fst (calcQosBasedOnCapacity rv qos) = None"
    and "qos_value (snd (calcQosBasedOnCapacity rv qos)) (baseLimitType qos) = Some (baseLimit qos)"
    by (simp_all add: qos_value_set)
next
  assume pv: "ParseInt (perGiBLimit qos) = Inr p \<and> ParseInt (BaseVolSize rv) = Inr v"
  show "fst (calcQosBasedOnCapacity rv qos) = None"
  proof (cases "RequestedVolSize rv \<le> v")
    case True
    with calc_small [OF assms] pv show ?thesis by simp
  next
    case False
    with calc_large [OF assms] pv show ?thesis by simp
  qed
next
  assume "ParseInt (perGiBLimit qos) = Inr p \<and> ParseInt (BaseVolSize rv) = Inr v"
    and "RequestedVolSize rv \<le> v"
  with calc_small [OF assms]
  show "qos_value (snd (calcQosBasedOnCapacity rv qos)) (baseLimitType qos) = Some (baseLimit qos)"
    by (simp add: qos_value_set)
next
  assume "ParseInt (perGiBLimit qos) = Inr p \<and> ParseInt (BaseVolSize rv) = Inr v"
    and "v < RequestedVolSize rv"
  with calc_large [OF assms]
  show "qos_value (snd (calcQosBasedOnCapacity rv qos)) (baseLimitType qos) =
          Some (FormatInt
            (wrap64 (b + wrap64 (quo64 (wrap64 (RequestedVolSize rv - v)) oneGB * p))))"
    by (simp add: qos_value_set add64_def mul64_def sub64_def)
next
  assume pv: "ParseInt (perGiBLimit qos) = Inr p \<and> ParseInt (BaseVolSize rv) = Inr v"
    and r: "v < RequestedVolSize rv \<and> in_int64 (RequestedVolSize rv - v) \<and>
         in_int64 ((RequestedVolSize rv - v) div 2 ^ 30 * p) \<and>
         in_int64 (b + (RequestedVolSize rv - v) div 2 ^ 30 * p)"
  from r have "add64 b (mul64 (quo64 (sub64 (RequestedVolSize rv) v) oneGB) p) =
      b + (RequestedVolSize rv - v) div 2 ^ 30 * p"
    by (intro capacity_exact) simp_all
  with calc_large [OF assms] pv r
  show "qos_value (snd (calcQosBasedOnCapacity rv qos)) (baseLimitType qos) =
          Some (FormatInt (b + (RequestedVolSize rv - v) div 2 ^ 30 * p))"
    by (simp add: qos_value_set)
qed

text \<open>
  The cases of \<open>TestSetQOS\<close> for the read IOPS: no per-GiB limit and no base size;
  20 GiB requested with a base size of 20 GiB; 100 GiB requested, which is 80 GiB above
  the base size, at 20 IOPS per GiB.
\<close>

theorem calcQosBasedOnCapacity_limit_witness:
  "ParseInt (baseLimit test_qos) = Inr 2000 \<and>
   ParseInt (perGiBLimit test_qos) = Inr 20 \<and>
   ParseInt (BaseVolSize (test_volume 100)) = Inr 21474836480 \<and>
   BaseVolSize ((test_volume 1)\<lparr>BaseVolSize := []\<rparr>) = [] \<and>
   qos_value (snd (calcQosBasedOnCapacity ((test_volume 1)\<lparr>BaseVolSize := []\<rparr>)
       (test_qos\<lparr>perGiBLimit := []\<rparr>))) ''rbd_qos_read_iops_limit'' = Some ''2000'' \<and>
   RequestedVolSize (test_volume 20) \<le> 21474836480 \<and>
   qos_value (snd (calcQosBasedOnCapacity (test_volume 20) test_qos)) ''rbd_qos_read_iops_limit'' =
     Some ''2000'' \<and>
   21474836480 < RequestedVolSize (test_volume 100) \<and>
   in_int64 (RequestedVolSize (test_volume 100) - 21474836480) \<and>
   in_int64 ((RequestedVolSize (test_volume 100) - 21474836480) div 2 ^ 30 * 20) \<and>
   in_int64 (2000 + (RequestedVolSize (test_volume 100) - 21474836480) div 2 ^ 30 * 20) \<and>
   fst (calcQosBasedOnCapacity (test_volume 100) test_qos) = None \<and>
   qos_value (snd (calcQosBasedOnCapacity (test_volume 100) test_qos)) ''rbd_qos_read_iops_limit'' =
     Some ''3600''"
proof -
  have p: "ParseInt (baseLimit test_qos) = Inr 2000"
    "ParseInt (baseLimit (test_qos\<lparr>perGiBLimit := []\<rparr>)) = Inr 2000"
    by (simp_all add: test_qos_def ParseInt_test_values)
  have f: "FormatInt 3600 = ''3600''"
    by (simp add: FormatInt_def FormatUint.simps digit_char_def)
  show ?thesis
    using calcQosBasedOnCapacity_limit [OF p(1), of "test_volume 100" 20 21474836480]
      calcQosBasedOnCapacity_limit [OF p(1), of "test_volume 20" 20 21474836480]
      calcQosBasedOnCapacity_limit
        [OF p(2), of "(test_volume 1)\<lparr>BaseVolSize := []\<rparr>" 20 21474836480] f
    by (simp add: test_qos_def test_volume_def oneGB_def in_int64_def ParseInt_test_values
        wrap64_def quo64_def)
qed

text \<open>
  The claim's formula read over the integers fails where the sum leaves the 64-bit
  range: with a base limit of 9223372036854775807, one unit per GiB, a base size of
  1 GiB and 2 GiB requested, all three strings parse and the size is above the base
  size, yet the parameter is set to the wrapped value and not to the sum.
\<close>

theorem calcQosBasedOnCapacity_overflow_counterexample:
  "ParseInt (baseLimit edge_qos) = Inr 9223372036854775807 \<and>
   ParseInt (perGiBLimit edge_qos) = Inr 1 \<and>
   ParseInt (BaseVolSize edge_volume) = Inr 1073741824 \<and>
   1073741824 < RequestedVolSize edge_volume \<and>
   FormatInt (9223372036854775807 + (RequestedVolSize edge_volume - 1073741824) div 2 ^ 30 * 1) =
     ''9223372036854775808'' \<and>
   qos_value (snd (calcQosBasedOnCapacity edge_volume edge_qos)) (baseLimitType edge_qos) =
     Some ''-9223372036854775808''"
proof -
  have p: "ParseInt (baseLimit edge_qos) = Inr 9223372036854775807"
    "ParseInt (perGiBLimit edge_qos) = Inr 1"
    "ParseInt (BaseVolSize edge_volume) = Inr 1073741824"
    by (simp_all add: edge_qos_def edge_volume_def ParseInt_test_values)
  have lt: "1073741824 < RequestedVolSize edge_volume"
    by (simp add: edge_volume_def)
  have q: "quo64 (sub64 (RequestedVolSize edge_volume) 1073741824) oneGB = 1"
    by (simp add: edge_volume_def sub64_def quo64_def wrap64_def oneGB_def)
  have w: "add64 9223372036854775807 (mul64 1 1) = - 9223372036854775808"
    by (simp add: add64_def mul64_def wrap64_def)
  have f: "FormatInt (- 9223372036854775808) = ''-9223372036854775808''"
    "FormatInt 9223372036854775808 = ''9223372036854775808''"
    by (simp_all add: FormatInt_def FormatUint.simps digit_char_def)
  have "calcQosBasedOnCapacity edge_volume edge_qos =
      (None, set_QosParameter (init_QosParameters edge_volume) (baseLimitType edge_qos)
         ''-9223372036854775808'')"
    using calc_large [OF p lt] by (simp add: q w f)
  then show ?thesis
    using p lt f by (simp add: qos_value_set edge_volume_def)
qed

section \<open>The calls of CreateVolumeGroupSnapshot\<close>

subsection \<open>The loops\<close>

text \<open>
  What each loop calls, whatever the collaborators do. The resolution fills the slots
  of \<open>volumes\<close> from the left and leaves the others nil; it ends with the failed
  lookup when there is one.
\<close>

lemma resolve_volumes_shape:
  "resolve_volumes mgr ids i vols w = (r, vols', w', evs) \<Longrightarrow> i + length ids \<le> length vols \<Longrightarrow>
   \<exists>vs. vols' = take i vols @ map Some vs @ drop (i + length vs) vols \<and>
        (case r of
           None \<Rightarrow> length vs = length ids \<and> evs = resolved_calls ids vs
         | Some err \<Rightarrow> length vs < length ids \<and>
             evs = resolved_calls (take (length vs) ids) vs @
                   [EvGetVolumeByID (ids ! length vs) (Inl err)])"
proof (induction ids arbitrary: i vols w r vols' w' evs)
  case Nil
  then show ?case by (auto simp: resolved_calls_def)
next
  case (Cons volID ids)
  obtain res w1 where g: "mgr_GetVolumeByID mgr volID w = (res, w1)" by force
  show ?case
  proof (cases res)
    case (Inl err)
    with Cons.prems g have "r = Some err" "vols' = vols" "evs = [EvGetVolumeByID volID (Inl err)]"
      by auto
    then show ?thesis
      by (intro exI [of _ "[]"]) (simp add: resolved_calls_def)
  next
    case (Inr vol)
    obtain r2 vols2 w2 evs2 where
      rec: "resolve_volumes mgr ids (Suc i) (vols[i := Some vol]) w1 = (r2, vols2, w2, evs2)"
      by (metis prod_cases4)
    with Cons.prems g Inr have eq: "r = r2" "vols' = vols2" "evs = EvGetVolumeByID volID (Inr vol) # evs2"
      by auto
    from Cons.prems(2) have len: "Suc i + length ids \<le> length (vols[i := Some vol])" "i < length vols"
      by auto
    from Cons.IH [OF rec len(1)] obtain vs where
      v2: "vols2 = take (Suc i) (vols[i := Some vol]) @ map Some vs @
              drop (Suc i + length vs) (vols[i := Some vol])"
      and c: "case r2 of
           None \<Rightarrow> length vs = length ids \<and> evs2 = resolved_calls ids vs
         | Some err \<Rightarrow> length vs < length ids \<and>
             evs2 = resolved_calls (take (length vs) ids) vs @
                   [EvGetVolumeByID (ids ! length vs) (Inl err)]"
      by blast
    have t: "take (Suc i) (vols[i := Some vol]) = take i vols @ [Some vol]"
      using len(2) by (simp add: take_Suc_conv_app_nth)
    have d: "drop (Suc i + length vs) (vols[i := Some vol]) = drop (i + length (vol # vs)) vols"
      by simp
    show ?thesis
      using v2 c eq t d
      by (intro exI [of _ "vol # vs"]) (auto simp: resolved_calls_def split: option.splits)
  qed
qed

text \<open>The preparation of resolved volumes never meets a nil volume and collects every failure.\<close>

lemma prepare_volumes_shape:
  "prepare_volumes mgr creds (map Some vs) errList w = (r, w', evs) \<Longrightarrow>
   \<exists>rs. length rs = length vs \<and> evs = prepare_calls vs rs \<and> r = Some (errList @ failures rs)"
proof (induction vs arbitrary: errList w r w' evs)
  case Nil
  then show ?case by (simp add: prepare_calls_def)
next
  case (Cons v vs)
  obtain err w1 where p: "vol_PrepareVolumeForSnapshot mgr v creds w = (err, w1)" by force
  obtain r2 w2 evs2 where
    rec: "prepare_volumes mgr creds (map Some vs)
            (case err of None \<Rightarrow> errList | Some e \<Rightarrow> errList @ [e]) w1 = (r2, w2, evs2)"
    by (metis prod_cases3)
  with Cons.prems p have eq: "r = r2" "evs = EvPrepareVolumeForSnapshot v err # evs2"
    by auto
  from Cons.IH [OF rec] obtain rs where
    "length rs = length vs" "evs2 = prepare_calls vs rs"
    "r2 = Some ((case err of None \<Rightarrow> errList | Some e \<Rightarrow> errList @ [e]) @ failures rs)"
    by blast
  then show ?case
    using eq by (intro exI [of _ "err # rs"]) (auto simp: prepare_calls_def split: option.splits)
qed

text \<open>The additions go on up to the first failure.\<close>

lemma add_volumes_shape:
  "add_volumes mgr g (map Some vs) w = (r, w', evs) \<Longrightarrow>
   (case r of
      None \<Rightarrow> evs = added_calls g vs
    | Some err \<Rightarrow> \<exists>k < length vs.
        evs = added_calls g (take k vs) @ [EvAddVolume g (Some (vs ! k)) (Some err)])"
proof (induction vs arbitrary: w r w' evs)
  case Nil
  then show ?case by (simp add: added_calls_def)
next
  case (Cons v vs)
  obtain err w1 where a: "vg_AddVolume mgr g (Some v) w = (err, w1)" by force
  show ?case
  proof (cases err)
    case (Some e)
    with Cons.prems a have "r = Some e" "evs = [EvAddVolume g (Some v) (Some e)]" by auto
    then show ?thesis by (auto simp: added_calls_def intro: exI [of _ 0])
  next
    case None
    obtain r2 w2 evs2 where rec: "add_volumes mgr g (map Some vs) w1 = (r2, w2, evs2)"
      by (metis prod_cases3)
    with Cons.prems a None have eq: "r = r2" "evs = EvAddVolume g (Some v) None # evs2" by auto
    show ?thesis
    proof (cases r2)
      case None
      with Cons.IH [OF rec] eq show ?thesis by (simp add: added_calls_def)
    next
      case (Some e)
      with Cons.IH [OF rec] obtain k where
        "k < length vs" "evs2 = added_calls g (take k vs) @ [EvAddVolume g (Some (vs ! k)) (Some e)]"
        by auto
      with eq Some show ?thesis
        by (auto simp: added_calls_def intro!: exI [of _ "Suc k"])
    qed
  qed
qed

text \<open>
  The cleanup: with a group, every volume is removed from it and destroyed; without
  one, the volumes that were resolved are destroyed.
\<close>

lemma cleanup_volumes_group_shape:
  "cleanup_volumes mgr (Some g) (map Some vs) w = (w', evs) \<Longrightarrow>
   \<exists>rs. length rs = length vs \<and> evs = removal_calls g vs rs"
proof (induction vs arbitrary: w w' evs)
  case Nil
  then show ?case by (simp add: removal_calls_def)
next
  case (Cons v vs)
  obtain vgErr w1 where rm: "vg_RemoveVolume mgr g (Some v) w = (vgErr, w1)" by force
  obtain w3 evs3 where
    rec: "cleanup_volumes mgr (Some g) (map Some vs) (vol_Destroy mgr v w1) = (w3, evs3)"
    by force
  with Cons.prems rm have eq: "evs = [EvRemoveVolume g (Some v) vgErr, EvDestroyVolume v] @ evs3"
    by (simp add: remove_from_group_def destroy_volume_def)
  from Cons.IH [OF rec] obtain rs where "length rs = length vs" "evs3 = removal_calls g vs rs"
    by blast
  then show ?case
    using eq by (intro exI [of _ "vgErr # rs"]) (simp add: removal_calls_def)
qed

lemma cleanup_volumes_nogroup_shape:
  "cleanup_volumes mgr None (map Some vs @ replicate n None) w = (w', evs) \<Longrightarrow>
   evs = destroy_calls vs"
proof (induction vs arbitrary: w w' evs)
  case Nil
  then show ?case
    by (induction n arbitrary: w w' evs)
      (auto simp: destroy_calls_def remove_from_group_def destroy_volume_def split: prod.splits)
next
  case (Cons v vs)
  then show ?case
    by (auto simp: destroy_calls_def remove_from_group_def destroy_volume_def split: prod.splits)
qed

lemma cleanup_group_shape:
  assumes "cleanup mgr (Some g) (map Some vs) w = (w', evs)"
  shows "\<exists>rs r. length rs = length vs \<and> evs = cleanup_calls g vs rs r"
proof -
  obtain w1 evs1 where c: "cleanup_volumes mgr (Some g) (map Some vs) w = (w1, evs1)" by force
  obtain vgErr w2 where d: "vg_Delete mgr g w1 = (vgErr, w2)" by force
  from cleanup_volumes_group_shape [OF c] obtain rs where
    "length rs = length vs" "evs1 = removal_calls g vs rs" by blast
  moreover from assms c d have "evs = evs1 @ [EvDeleteVolumeGroup g vgErr, EvDestroyVolumeGroup g]"
    by (simp add: cleanup_def)
  ultimately show ?thesis by (auto simp: cleanup_calls_def)
qed

lemma cleanup_nogroup_shape:
  assumes "cleanup mgr None (map Some vs @ replicate n None) w = (w', evs)"
  shows "evs = destroy_calls vs"
proof -
  obtain w1 evs1 where
    c: "cleanup_volumes mgr None (map Some vs @ replicate n None) w = (w1, evs1)" by force
  from cleanup_volumes_nogroup_shape [OF c] assms c show ?thesis
    by (simp add: cleanup_def)
qed

lemma convert_snapshot_shape:
  "convert_snapshot mgr gs w = (r, w', evs) \<Longrightarrow>
   \<exists>conv. r = converted conv \<and> evs = [EvToCSI gs conv, EvDestroyVolumeGroupSnapshot gs]"
  by (auto simp: convert_snapshot_def converted_def split: prod.splits)

subsection \<open>Every run is one of the runs of \<open>create_path\<close>\<close>

lemma snapshot_volumes_path:
  assumes sv: "snapshot_volumes mgr req creds (map Some vs) w = (r, vg, w', evs)"
    and cl: "cleanup mgr vg (map Some vs) wx = (wc, evsc)"
    and len: "length vs = length (SourceVolumeIds req)"
    and free: "Name req \<notin> locks"
  shows "create_path req locks r
           (EvTryAcquire (Name req) True # resolved_calls (SourceVolumeIds req) vs @
            [EvGetVolumeGroupSnapshotByName (Name req) None lookupErr, EvNewUserCredentials None] @
            evs @ [EvDeleteCredentials] @ evsc @ [EvDestroyManager, EvRelease (Name req)])"
proof -
  obtain pr w1 evs1 where p: "prepare_volumes mgr creds (map Some vs) [] w = (pr, w1, evs1)"
    by (metis prod_cases3)
  from prepare_volumes_shape [OF p] obtain prs where
    prs: "length prs = length vs" "evs1 = prepare_calls vs prs" "pr = Some (failures prs)"
    by auto
  show ?thesis
  proof (cases "failures prs")
    case (Cons e es)
    with sv p prs have "r = Status (status_Code e)" "vg = None" "evs = prepare_calls vs prs"
      by (auto simp: snapshot_volumes_def)
    moreover from this cl cleanup_nogroup_shape [of mgr vs 0] have "evsc = destroy_calls vs"
      by simp
    ultimately show ?thesis
      using create_path.unprepared [OF free len prs(1) Cons, of lookupErr] by simp
  next
    case Nil
    obtain gr w2 where cg: "mgr_CreateVolumeGroup mgr (Name req @ ''-vg'') w1 = (gr, w2)"
      by force
    show ?thesis
    proof (cases gr)
      case (Inl groupErr)
      with sv p prs Nil cg have "r = Status Internal" "vg = None"
        "evs = prepare_calls vs prs @ [EvCreateVolumeGroup (Name req @ ''-vg'') (Inl groupErr)]"
        by (auto simp: snapshot_volumes_def)
      moreover from this cl cleanup_nogroup_shape [of mgr vs 0] have "evsc = destroy_calls vs"
        by simp
      ultimately show ?thesis
        using create_path.no_group [OF free len prs(1) Nil, of lookupErr groupErr] by simp
    next
      case (Inr g)
      obtain ar w3 evs3 where ad: "add_volumes mgr g (map Some vs) w2 = (ar, w3, evs3)"
        by (metis prod_cases3)
      have vg: "vg = Some g"
        using sv p prs Nil cg Inr ad
        by (auto simp: snapshot_volumes_def split: option.splits sum.splits prod.splits)
      with cl have "cleanup mgr (Some g) (map Some vs) wx = (wc, evsc)" by simp
      from cleanup_group_shape [OF this] obtain rrs delErr where
        rrs: "length rrs = length vs" "evsc = cleanup_calls g vs rrs delErr"
        by blast
      show ?thesis
      proof (cases ar)
        case (Some addErr)
        with add_volumes_shape [OF ad] obtain k where
          k: "k < length vs"
          "evs3 = added_calls g (take k vs) @ [EvAddVolume g (Some (vs ! k)) (Some addErr)]"
          by auto
        from sv p prs Nil cg Inr ad Some have "r = Status Aborted"
          "evs = prepare_calls vs prs @ [EvCreateVolumeGroup (Name req @ ''-vg'') (Inr g)] @ evs3"
          by (auto simp: snapshot_volumes_def)
        then show ?thesis
          using create_path.not_added [OF free len prs(1) Nil k(1) rrs(1), of lookupErr g addErr delErr]
            k(2) rrs(2)
          by simp
      next
        case None
        with add_volumes_shape [OF ad] have e3: "evs3 = added_calls g vs" by simp
        obtain sr w4 where cs: "mgr_CreateVolumeGroupSnapshot mgr g (Name req) w3 = (sr, w4)"
          by force
        show ?thesis
        proof (cases sr)
          case (Inl snapErr)
          with sv p prs Nil cg Inr ad None cs have "r = Status Aborted"
            "evs = prepare_calls vs prs @ [EvCreateVolumeGroup (Name req @ ''-vg'') (Inr g)] @ evs3 @
               [EvCreateVolumeGroupSnapshot g (Name req) (Inl snapErr)]"
            by (auto simp: snapshot_volumes_def)
          then show ?thesis
            using create_path.no_snapshot [OF free len prs(1) Nil rrs(1), of lookupErr g snapErr delErr]
              e3 rrs(2)
            by simp
        next
          case (Inr gs)
          obtain cr w5 evs5 where cv: "convert_snapshot mgr gs w4 = (cr, w5, evs5)"
            by (metis prod_cases3)
          from convert_snapshot_shape [OF cv] obtain conv where
            conv: "cr = converted conv" "evs5 = [EvToCSI gs conv, EvDestroyVolumeGroupSnapshot gs]"
            by blast
          from sv p prs Nil cg \<open>gr = Inr g\<close> ad None cs Inr cv have "r = cr"
            "evs = prepare_calls vs prs @ [EvCreateVolumeGroup (Name req @ ''-vg'') (Inr g)] @ evs3 @
               [EvCreateVolumeGroupSnapshot g (Name req) (Inr gs)] @ evs5"
            by (auto simp: snapshot_volumes_def)
          then show ?thesis
            using create_path.snapshot_taken
              [OF free len prs(1) Nil rrs(1), of conv lookupErr g gs delErr] e3 rrs(2) conv
            by simp
        qed
      qed
    qed
  qed
qed

lemma find_or_create_path:
  assumes fc: "find_or_create mgr req (map Some vs) w = (r, vg, w', evs)"
    and cl: "cleanup mgr vg (map Some vs) w' = (wc, evsc)"
    and len: "length vs = length (SourceVolumeIds req)"
    and free: "Name req \<notin> locks"
  shows "create_path req locks r
           (EvTryAcquire (Name req) True # resolved_calls (SourceVolumeIds req) vs @
            evs @ evsc @ [EvDestroyManager, EvRelease (Name req)])"
proof -
  obtain found lookupErr w1 where
    lk: "mgr_GetVolumeGroupSnapshotByName mgr (Name req) w = ((found, lookupErr), w1)"
    by (metis prod.exhaust)
  show ?thesis
  proof (cases found)
    case (Some gs)
    obtain cr w2 evs2 where cv: "convert_snapshot mgr gs w1 = (cr, w2, evs2)"
      by (metis prod_cases3)
    from convert_snapshot_shape [OF cv] obtain conv where
      conv: "cr = converted conv" "evs2 = [EvToCSI gs conv, EvDestroyVolumeGroupSnapshot gs]"
      by blast
    from fc lk Some cv have "r = cr" "vg = None"
      "evs = EvGetVolumeGroupSnapshotByName (Name req) (Some gs) lookupErr # evs2"
      by (auto simp: find_or_create_def)
    moreover from this cl cleanup_nogroup_shape [of mgr vs 0] have "evsc = destroy_calls vs"
      by simp
    ultimately show ?thesis
      using create_path.existing [OF free len, of conv gs lookupErr] conv by simp
  next
    case None
    show ?thesis
    proof (cases "NewUserCredentials mgr (Secrets req)")
      case (Inl credErr)
      with fc lk None have "r = Status Internal" "vg = None"
        "evs = [EvGetVolumeGroupSnapshotByName (Name req) None lookupErr,
                EvNewUserCredentials (Some credErr)]"
        by (auto simp: find_or_create_def)
      moreover from this cl cleanup_nogroup_shape [of mgr vs 0] have "evsc = destroy_calls vs"
        by simp
      ultimately show ?thesis
        using create_path.no_credentials [OF free len, of lookupErr credErr] by simp
    next
      case (Inr creds)
      obtain r2 vg2 w2 evs2 where
        sv: "snapshot_volumes mgr req creds (map Some vs) w1 = (r2, vg2, w2, evs2)"
        by (metis prod_cases4)
      with fc lk None Inr have eq: "r = r2" "vg = vg2"
        "evs = [EvGetVolumeGroupSnapshotByName (Name req) None lookupErr,
                EvNewUserCredentials None] @ evs2 @ [EvDeleteCredentials]"
        by (auto simp: find_or_create_def)
      from cl eq have cl2: "cleanup mgr vg2 (map Some vs) w' = (wc, evsc)" by simp
      from snapshot_volumes_path [OF sv cl2 len free, of lookupErr] eq show ?thesis by simp
    qed
  qed
qed

lemma CreateVolumeGroupSnapshot_path:
  "create_path req locks
     (rpc_result (CreateVolumeGroupSnapshot mgr req locks w))
     (rpc_calls (CreateVolumeGroupSnapshot mgr req locks w))"
proof (cases "Name req \<in> locks")
  case True
  then show ?thesis
    by (simp add: CreateVolumeGroupSnapshot_def TryAcquire_def rpc_result_def rpc_calls_def
        create_path.lock_held)
next
  case False
  obtain r vg volumes wb evsb where body: "create_body mgr req w = (r, vg, volumes, wb, evsb)"
    by (metis prod_cases5)
  obtain wc evsc where cl: "cleanup mgr vg volumes wb = (wc, evsc)" by force
  have run: "rpc_result (CreateVolumeGroupSnapshot mgr req locks w) = r"
    "rpc_calls (CreateVolumeGroupSnapshot mgr req locks w) =
       EvTryAcquire (Name req) True # evsb @ evsc @ [EvDestroyManager, EvRelease (Name req)]"
    using False body cl
    by (simp_all add: CreateVolumeGroupSnapshot_def TryAcquire_def rpc_result_def rpc_calls_def)
  obtain rr vols w1 evs1 where
    res: "resolve_volumes mgr (SourceVolumeIds req) 0
            (replicate (length (SourceVolumeIds req)) None) w = (rr, vols, w1, evs1)"
    by (metis prod_cases4)
  from resolve_volumes_shape [OF res] obtain vs where
    vols: "vols = map Some vs @ drop (length vs) (replicate (length (SourceVolumeIds req)) None)"
    and shape: "case rr of
           None \<Rightarrow> length vs = length (SourceVolumeIds req) \<and>
             evs1 = resolved_calls (SourceVolumeIds req) vs
         | Some err \<Rightarrow> length vs < length (SourceVolumeIds req) \<and>
             evs1 = resolved_calls (take (length vs) (SourceVolumeIds req)) vs @
                   [EvGetVolumeByID (SourceVolumeIds req ! length vs) (Inl err)]"
    by auto
  show ?thesis
  proof (cases rr)
    case (Some err)
    with shape have len: "length vs < length (SourceVolumeIds req)"
      and e1: "evs1 = resolved_calls (take (length vs) (SourceVolumeIds req)) vs @
                   [EvGetVolumeByID (SourceVolumeIds req ! length vs) (Inl err)]"
      by simp_all
    from body res Some have b: "r = Status InvalidArgument" "vg = None" "volumes = vols" "evsb = evs1"
      by (auto simp: create_body_def)
    from vols have "vols = map Some vs @ replicate (length (SourceVolumeIds req) - length vs) None"
      by simp
    with cl b cleanup_nogroup_shape have "evsc = destroy_calls vs" by metis
    with run b e1 create_path.unresolved [OF False len, of err] show ?thesis by simp
  next
    case None
    with shape have len: "length vs = length (SourceVolumeIds req)"
      and e1: "evs1 = resolved_calls (SourceVolumeIds req) vs"
      by simp_all
    from vols len have v: "vols = map Some vs" by simp
    obtain r2 vg2 w2 evs2 where fc: "find_or_create mgr req (map Some vs) w1 = (r2, vg2, w2, evs2)"
      by (metis prod_cases4)
    with body res None v have b: "r = r2" "vg = vg2" "volumes = map Some vs" "wb = w2"
      "evsb = evs1 @ evs2"
      by (auto simp: create_body_def)
    from cl b have cl2: "cleanup mgr vg2 (map Some vs) w2 = (wc, evsc)" by simp
    from find_or_create_path [OF fc cl2 len False] run b e1 show ?thesis by simp
  qed
qed

text \<open>The lock set after a call is the one before it.\<close>

lemma CreateVolumeGroupSnapshot_locks:
  "rpc_locks (CreateVolumeGroupSnapshot mgr req locks w) = locks"
  by (auto simp: CreateVolumeGroupSnapshot_def TryAcquire_def Release_def rpc_locks_def
      split: prod.splits)

subsection \<open>Reading the calls of a run\<close>

lemmas call_defs = resolved_calls_def prepare_calls_def added_calls_def destroy_calls_def
  removal_calls_def cleanup_calls_def

lemma removed_volumes_append [simp]:
  "removed_volumes (xs @ ys) = removed_volumes xs @ removed_volumes ys"
  by (induction xs rule: removed_volumes.induct) simp_all

lemma removed_volumes_none:
  "\<forall>e \<in> set evs. \<not> is_mutation e \<or> (\<forall>g v r. e \<noteq> EvRemoveVolume g v r) \<Longrightarrow> removed_volumes evs = []"
  by (induction evs rule: removed_volumes.induct) auto

lemma removed_volumes_resolved [simp]: "removed_volumes (resolved_calls ids vs) = []"
  by (rule removed_volumes_none) (auto simp: resolved_calls_def)

lemma removed_volumes_prepare [simp]: "removed_volumes (prepare_calls vs prs) = []"
  by (rule removed_volumes_none) (auto simp: prepare_calls_def)

lemma removed_volumes_added [simp]: "removed_volumes (added_calls g vs) = []"
  by (rule removed_volumes_none) (auto simp: added_calls_def)

lemma removed_volumes_removal [simp]:
  "length rrs = length vs \<Longrightarrow> removed_volumes (removal_calls g vs rrs) = map Some vs"
  by (induction rrs vs rule: list_induct2) (simp_all add: removal_calls_def)


text \<open>A run in which the lookup by name finds a group snapshot.\<close>

lemma existing_snapshot_calls:
  assumes "EvGetVolumeGroupSnapshotByName n (Some gs) lookupErr \<in>
             set (rpc_calls (CreateVolumeGroupSnapshot mgr req locks w))"
  shows "(\<exists>conv. EvToCSI gs conv \<in> set (rpc_calls (CreateVolumeGroupSnapshot mgr req locks w)) \<and>
            rpc_result (CreateVolumeGroupSnapshot mgr req locks w) = converted conv) \<and>
         (\<forall>e \<in> set (rpc_calls (CreateVolumeGroupSnapshot mgr req locks w)). \<not> is_mutation e)"
  using CreateVolumeGroupSnapshot_path [of req locks mgr w] assms
proof (cases rule: create_path.cases)
  case (existing vs conv gs' lookupErr')
  with assms have "gs' = gs" by (auto simp: call_defs)
  with existing show ?thesis by (auto simp: call_defs)
qed (auto simp: call_defs)


section \<open>Runs on the storage cluster\<close>

lemmas st_defs = spec_mgr_def st_GetVolumeByID_def st_GetVolumeGroupSnapshotByName_def
  st_GetVolumeGroupSnapshotByID_def st_CreateVolumeGroup_def st_AddVolume_def st_RemoveVolume_def
  st_DeleteVolumeGroup_def st_CreateVolumeGroupSnapshot_def st_ToCSI_def
  st_DeleteVolumeGroupSnapshot_def grouped_elsewhere_def new_group_snapshot_def

lemmas ctl_defs = CreateVolumeGroupSnapshot_def create_body_def find_or_create_def
  snapshot_volumes_def convert_snapshot_def cleanup_def remove_from_group_def destroy_volume_def
  TryAcquire_def Release_def

lemmas run_defs = ctl_defs st_defs request_def three_volumes_def rpc_result_def rpc_calls_def
  rpc_locks_def rpc_world_def

subsection \<open>What the calls do to the cluster\<close>

lemma spec_mgr_fields [simp]:
  "mgr_GetVolumeByID spec_mgr = st_GetVolumeByID"
  "mgr_GetVolumeGroupSnapshotByName spec_mgr = st_GetVolumeGroupSnapshotByName"
  "mgr_GetVolumeGroupSnapshotByID spec_mgr = st_GetVolumeGroupSnapshotByID"
  "mgr_CreateVolumeGroup spec_mgr = st_CreateVolumeGroup"
  "mgr_CreateVolumeGroupSnapshot spec_mgr = st_CreateVolumeGroupSnapshot"
  "mgr_Destroy spec_mgr = (\<lambda>c. c)"
  "NewUserCredentials spec_mgr = (\<lambda>secrets. Inr ())"
  "DeleteCredentials spec_mgr = (\<lambda>creds c. c)"
  "vol_PrepareVolumeForSnapshot spec_mgr = (\<lambda>volume creds c. (None, c))"
  "vol_Destroy spec_mgr = (\<lambda>volume c. c)"
  "vg_AddVolume spec_mgr = st_AddVolume"
  "vg_RemoveVolume spec_mgr = st_RemoveVolume"
  "vg_Delete spec_mgr = st_DeleteVolumeGroup"
  "vg_Destroy spec_mgr = (\<lambda>g c. c)"
  "vgs_ToCSI spec_mgr = (\<lambda>s c. (st_ToCSI s, c))"
  "vgs_Delete spec_mgr = st_DeleteVolumeGroupSnapshot"
  "vgs_Destroy spec_mgr = (\<lambda>s c. c)"
  by (simp_all add: spec_mgr_def)

lemma spec_resolve_volumes:
  "set ids \<subseteq> set (cl_volumes c) \<Longrightarrow> i + length ids \<le> length vols \<Longrightarrow>
   resolve_volumes spec_mgr ids i vols c =
     (None, take i vols @ map Some ids @ drop (i + length ids) vols, c, resolved_calls ids ids)"
proof (induction ids arbitrary: i vols)
  case Nil
  then show ?case by (simp add: resolved_calls_def)
next
  case (Cons volID ids)
  from Cons.prems have len: "Suc i + length ids \<le> length (vols[i := Some volID])" "i < length vols"
    and sub: "set ids \<subseteq> set (cl_volumes c)" and mem: "volID \<in> set (cl_volumes c)"
    by auto
  have t: "take (Suc i) (vols[i := Some volID]) = take i vols @ [Some volID]"
    using len(2) by (simp add: take_Suc_conv_app_nth)
  show ?case
    using Cons.IH [OF sub len(1)] mem t
    by (simp add: st_GetVolumeByID_def resolved_calls_def)
qed

lemma spec_resolve_volumes_None:
  "resolve_volumes spec_mgr ids i vols c = (None, vols', c', evs) \<Longrightarrow> set ids \<subseteq> set (cl_volumes c)"
  by (induction ids arbitrary: i vols vols' c' evs)
    (auto simp: st_GetVolumeByID_def split: if_splits prod.splits)

lemma spec_prepare_volumes:
  "prepare_volumes spec_mgr creds (map Some vs) errList c =
     (Some errList, c, prepare_calls vs (replicate (length vs) None))"
  by (induction vs) (simp_all add: prepare_calls_def)

lemma spec_add_volumes_frame:
  "add_volumes spec_mgr g vols c = (r, c', evs) \<Longrightarrow>
   cl_volumes c' = cl_volumes c \<and> cl_snapshots c' = cl_snapshots c \<and> cl_clock c' = cl_clock c"
proof (induction vols arbitrary: c r c' evs)
  case Nil
  then show ?case by simp
next
  case (Cons volume vols)
  obtain err c1 where a: "st_AddVolume g volume c = (err, c1)" by force
  then have f: "cl_volumes c1 = cl_volumes c \<and> cl_snapshots c1 = cl_snapshots c \<and>
      cl_clock c1 = cl_clock c"
    by (auto simp: st_AddVolume_def split: option.splits if_splits)
  show ?case
  proof (cases err)
    case (Some e)
    with Cons.prems a f show ?thesis by auto
  next
    case None
    with Cons.prems a obtain r2 evs2 where "add_volumes spec_mgr g vols c1 = (r2, c', evs2)"
      by (auto split: prod.splits)
    from Cons.IH [OF this] f show ?thesis by simp
  qed
qed

lemma spec_cleanup_volumes_frame:
  "cleanup_volumes spec_mgr vg vols c = (c', evs) \<Longrightarrow>
   cl_volumes c' = cl_volumes c \<and> cl_snapshots c' = cl_snapshots c \<and> cl_clock c' = cl_clock c"
proof (induction vols arbitrary: c c' evs)
  case Nil
  then show ?case by simp
next
  case (Cons volume vols)
  obtain c1 evs1 where r: "remove_from_group spec_mgr vg volume c = (c1, evs1)" by force
  then have f: "cl_volumes c1 = cl_volumes c \<and> cl_snapshots c1 = cl_snapshots c \<and>
      cl_clock c1 = cl_clock c"
    by (auto simp: remove_from_group_def st_RemoveVolume_def split: option.splits prod.splits)
  obtain evs2 where d: "destroy_volume spec_mgr volume c1 = (c1, evs2)"
    by (cases volume) (simp_all add: destroy_volume_def)
  from Cons.prems r d obtain evs3 where "cleanup_volumes spec_mgr vg vols c1 = (c', evs3)"
    by (auto split: prod.splits)
  from Cons.IH [OF this] f show ?case by simp
qed

lemma spec_cleanup_frame:
  "cleanup spec_mgr vg vols c = (c', evs) \<Longrightarrow>
   cl_volumes c' = cl_volumes c \<and> cl_snapshots c' = cl_snapshots c \<and> cl_clock c' = cl_clock c"
  by (auto simp: cleanup_def st_DeleteVolumeGroup_def split: prod.splits option.splits
      dest: spec_cleanup_volumes_frame)

lemma spec_cleanup_volumes_nogroup:
  "cleanup_volumes spec_mgr None vols c = (c', evs) \<Longrightarrow> c' = c"
  by (induction vols arbitrary: evs)
    (auto simp: remove_from_group_def destroy_volume_def split: prod.splits option.splits)

lemma spec_cleanup_nogroup: "cleanup spec_mgr None vols c = (c', evs) \<Longrightarrow> c' = c"
  by (auto simp: cleanup_def split: prod.splits dest: spec_cleanup_volumes_nogroup)

lemma find_append_new:
  "find P xs = None \<Longrightarrow> P y \<Longrightarrow> find P (xs @ [y]) = Some y"
  by (induction xs) (auto split: if_splits)

subsection \<open>A call after a call that returned a response\<close>

lemma spec_snapshot_volumes:
  assumes "snapshot_volumes spec_mgr req creds (map Some vs) c = (Reply resp, vg, c', evs)"
    and "find (\<lambda>s. gs_name s = Name req) (cl_snapshots c) = None"
  shows "cl_volumes c' = cl_volumes c \<and>
         (\<exists>s. cl_snapshots c' = cl_snapshots c @ [s] \<and> gs_name s = Name req \<and> st_ToCSI s = Inr resp)"
proof -
  obtain gr c2 where cg: "st_CreateVolumeGroup (Name req @ ''-vg'') c = (gr, c2)" by force
  then have f2: "cl_volumes c2 = cl_volumes c" "cl_snapshots c2 = cl_snapshots c"
    by (auto simp: st_CreateVolumeGroup_def split: if_splits)
  from assms(1) cg obtain g where g: "gr = Inr g"
    by (cases gr) (auto simp: snapshot_volumes_def spec_prepare_volumes)
  obtain ar c3 evs3 where ad: "add_volumes spec_mgr g (map Some vs) c2 = (ar, c3, evs3)"
    by (metis prod_cases3)
  from spec_add_volumes_frame [OF ad] f2
  have f3: "cl_volumes c3 = cl_volumes c" "cl_snapshots c3 = cl_snapshots c" by simp_all
  from assms(1) cg g ad have ar: "ar = None"
    by (cases ar) (auto simp: snapshot_volumes_def spec_prepare_volumes)
  obtain sr c4 where cs: "st_CreateVolumeGroupSnapshot g (Name req) c3 = (sr, c4)" by force
  from assms(1) cg g ad ar cs obtain s where s: "sr = Inr s"
    by (cases sr) (auto simp: snapshot_volumes_def spec_prepare_volumes)
  from cs s f3 have f4: "cl_volumes c4 = cl_volumes c" "cl_snapshots c4 = cl_snapshots c @ [s]"
    "gs_name s = Name req"
    by (auto simp: st_CreateVolumeGroupSnapshot_def new_group_snapshot_def
        split: option.splits if_splits)
  from assms(1) cg g ad ar cs s have "c' = c4" "st_ToCSI s = Inr resp"
    by (auto simp: snapshot_volumes_def spec_prepare_volumes convert_snapshot_def
        split: sum.splits)
  with f4 show ?thesis by simp
qed

lemma spec_first_call:
  assumes "rpc_result (CreateVolumeGroupSnapshot spec_mgr req locks c) = Reply resp"
  shows "Name req \<notin> locks \<and>
         set (SourceVolumeIds req) \<subseteq>
           set (cl_volumes (rpc_world (CreateVolumeGroupSnapshot spec_mgr req locks c))) \<and>
         (\<exists>s. find (\<lambda>s. gs_name s = Name req)
                (cl_snapshots (rpc_world (CreateVolumeGroupSnapshot spec_mgr req locks c))) = Some s \<and>
              st_ToCSI s = Inr resp)"
proof -
  have free: "Name req \<notin> locks"
    using assms
    by (auto simp: CreateVolumeGroupSnapshot_def TryAcquire_def rpc_result_def)
  obtain r vg volumes cb evsb where
    body: "create_body spec_mgr req c = (r, vg, volumes, cb, evsb)"
    by (metis prod_cases5)
  obtain cc evsc where cl: "cleanup spec_mgr vg volumes cb = (cc, evsc)" by force
  from free body cl assms have r: "r = Reply resp"
    and world: "rpc_world (CreateVolumeGroupSnapshot spec_mgr req locks c) = cc"
    by (simp_all add: CreateVolumeGroupSnapshot_def TryAcquire_def rpc_result_def rpc_world_def)
  obtain rr vols c1 evs1 where
    res: "resolve_volumes spec_mgr (SourceVolumeIds req) 0
            (replicate (length (SourceVolumeIds req)) None) c = (rr, vols, c1, evs1)"
    by (metis prod_cases4)
  from body res r have rr: "rr = None"
    by (cases rr) (auto simp: create_body_def)
  from spec_resolve_volumes_None res rr have sub: "set (SourceVolumeIds req) \<subseteq> set (cl_volumes c)"
    by metis
  from spec_resolve_volumes [OF sub, of 0 "replicate (length (SourceVolumeIds req)) None"] res
  have v: "vols = map Some (SourceVolumeIds req)" "c1 = c" by simp_all
  from cl spec_cleanup_frame
  have fc: "cl_volumes cc = cl_volumes cb" "cl_snapshots cc = cl_snapshots cb" by metis+
  show ?thesis
  proof (cases "find (\<lambda>s. gs_name s = Name req) (cl_snapshots c)")
    case (Some s)
    with body res rr v r have "cb = c" "st_ToCSI s = Inr resp"
      by (auto simp: create_body_def find_or_create_def st_GetVolumeGroupSnapshotByName_def
          convert_snapshot_def split: sum.splits)
    with free sub fc world Some show ?thesis by simp
  next
    case None
    obtain r2 vg2 c2 evs2 where
      sv: "snapshot_volumes spec_mgr req () (map Some (SourceVolumeIds req)) c = (r2, vg2, c2, evs2)"
      by (metis prod_cases4)
    with body res rr v r None have "r2 = Reply resp" "cb = c2"
      by (auto simp: create_body_def find_or_create_def st_GetVolumeGroupSnapshotByName_def)
    with sv spec_snapshot_volumes [OF _ None] obtain s where
      "cl_volumes cb = cl_volumes c" "cl_snapshots cb = cl_snapshots c @ [s]"
      "gs_name s = Name req" "st_ToCSI s = Inr resp"
      by blast
    with free sub fc world None show ?thesis
      by (simp add: find_append_new)
  qed
qed

lemma spec_existing_call:
  assumes "Name req \<notin> locks" "set (SourceVolumeIds req) \<subseteq> set (cl_volumes c)"
    "find (\<lambda>s. gs_name s = Name req) (cl_snapshots c) = Some s"
  shows "rpc_result (CreateVolumeGroupSnapshot spec_mgr req locks c) = converted (st_ToCSI s) \<and>
         rpc_world (CreateVolumeGroupSnapshot spec_mgr req locks c) = c \<and>
         EvGetVolumeGroupSnapshotByName (Name req) (Some s) None \<in>
           set (rpc_calls (CreateVolumeGroupSnapshot spec_mgr req locks c))"
proof -
  have body: "create_body spec_mgr req c =
      (converted (st_ToCSI s), None, map Some (SourceVolumeIds req), c,
       resolved_calls (SourceVolumeIds req) (SourceVolumeIds req) @
       [EvGetVolumeGroupSnapshotByName (Name req) (Some s) None,
        EvToCSI s (st_ToCSI s), EvDestroyVolumeGroupSnapshot s])"
    using spec_resolve_volumes [OF assms(2), of 0 "replicate (length (SourceVolumeIds req)) None"]
      assms(3)
    by (simp add: create_body_def find_or_create_def st_GetVolumeGroupSnapshotByName_def
        convert_snapshot_def converted_def)
  obtain cc evsc where cl: "cleanup spec_mgr None (map Some (SourceVolumeIds req)) c = (cc, evsc)"
    by force
  with spec_cleanup_nogroup have "cc = c" by metis
  with assms(1) body cl show ?thesis
    by (simp add: CreateVolumeGroupSnapshot_def TryAcquire_def rpc_result_def rpc_world_def
        rpc_calls_def)
qed

lemma spec_second_call:
  assumes "rpc_result (CreateVolumeGroupSnapshot spec_mgr req locks c) = Reply resp"
  shows "rpc_result (CreateVolumeGroupSnapshot spec_mgr req
            (rpc_locks (CreateVolumeGroupSnapshot spec_mgr req locks c))
            (rpc_world (CreateVolumeGroupSnapshot spec_mgr req locks c))) = Reply resp \<and>
         rpc_world (CreateVolumeGroupSnapshot spec_mgr req
            (rpc_locks (CreateVolumeGroupSnapshot spec_mgr req locks c))
            (rpc_world (CreateVolumeGroupSnapshot spec_mgr req locks c))) =
           rpc_world (CreateVolumeGroupSnapshot spec_mgr req locks c) \<and>
         (\<forall>e \<in> set (rpc_calls (CreateVolumeGroupSnapshot spec_mgr req
            (rpc_locks (CreateVolumeGroupSnapshot spec_mgr req locks c))
            (rpc_world (CreateVolumeGroupSnapshot spec_mgr req locks c)))). \<not> is_mutation e)"
proof -
  from spec_first_call [OF assms] obtain s where
    free: "Name req \<notin> locks"
    and sub: "set (SourceVolumeIds req) \<subseteq>
           set (cl_volumes (rpc_world (CreateVolumeGroupSnapshot spec_mgr req locks c)))"
    and s: "find (\<lambda>s. gs_name s = Name req)
                (cl_snapshots (rpc_world (CreateVolumeGroupSnapshot spec_mgr req locks c))) = Some s"
      "st_ToCSI s = Inr resp"
    by blast
  have l: "rpc_locks (CreateVolumeGroupSnapshot spec_mgr req locks c) = locks"
    by (rule CreateVolumeGroupSnapshot_locks)
  from spec_existing_call [OF free sub s(1)]
  have ex: "rpc_result (CreateVolumeGroupSnapshot spec_mgr req locks
              (rpc_world (CreateVolumeGroupSnapshot spec_mgr req locks c))) = converted (st_ToCSI s)"
    "rpc_world (CreateVolumeGroupSnapshot spec_mgr req locks
              (rpc_world (CreateVolumeGroupSnapshot spec_mgr req locks c))) =
       rpc_world (CreateVolumeGroupSnapshot spec_mgr req locks c)"
    "EvGetVolumeGroupSnapshotByName (Name req) (Some s) None \<in>
       set (rpc_calls (CreateVolumeGroupSnapshot spec_mgr req locks
              (rpc_world (CreateVolumeGroupSnapshot spec_mgr req locks c))))"
    by simp_all
  from existing_snapshot_calls [OF ex(3)]
  have "\<forall>e \<in> set (rpc_calls (CreateVolumeGroupSnapshot spec_mgr req locks
              (rpc_world (CreateVolumeGroupSnapshot spec_mgr req locks c)))). \<not> is_mutation e"
    by simp
  with ex s(2) l show ?thesis
    by (simp add: converted_def)
qed

subsection \<open>The groups of the cluster after a call\<close>










section \<open>The claims about the group snapshot controller\<close>

text \<open>
  C1, as the code has it. In a run of \<open>CreateVolumeGroupSnapshot\<close> in which the lookup
  by name finds a group snapshot, that snapshot is converted and the call returns the
  converted snapshot, or \<open>Aborted\<close> when the conversion fails; in both cases no call
  that changes the storage is made: no group is created, no volume added or removed, no
  group snapshot taken. On the storage cluster of the specification, a second identical
  call after a first one that returned a response returns the same response (the same
  group snapshot identifier and member snapshots), leaves the cluster as the first call
  left it and makes no call that changes the storage.
\<close>

theorem existing_snapshot_returned:
  "(EvGetVolumeGroupSnapshotByName n (Some gs) lookupErr \<in>
      set (rpc_calls (CreateVolumeGroupSnapshot mgr req locks w)) \<longrightarrow>
    (\<exists>conv. EvToCSI gs conv \<in> set (rpc_calls (CreateVolumeGroupSnapshot mgr req locks w)) \<and>
       rpc_result (CreateVolumeGroupSnapshot mgr req locks w) =
         (case conv of Inl csiErr \<Rightarrow> Status Aborted | Inr csiVGS \<Rightarrow> Reply csiVGS)) \<and>
    (\<forall>e \<in> set (rpc_calls (CreateVolumeGroupSnapshot mgr req locks w)). \<not> is_mutation e)) \<and>
   (rpc_result (CreateVolumeGroupSnapshot spec_mgr req' locks' c) = Reply resp \<longrightarrow>
    rpc_result (CreateVolumeGroupSnapshot spec_mgr req'
       (rpc_locks (CreateVolumeGroupSnapshot spec_mgr req' locks' c))
       (rpc_world (CreateVolumeGroupSnapshot spec_mgr req' locks' c))) = Reply resp \<and>
    rpc_world (CreateVolumeGroupSnapshot spec_mgr req'
       (rpc_locks (CreateVolumeGroupSnapshot spec_mgr req' locks' c))
       (rpc_world (CreateVolumeGroupSnapshot spec_mgr req' locks' c))) =
      rpc_world (CreateVolumeGroupSnapshot spec_mgr req' locks' c) \<and>
    (\<forall>e \<in> set (rpc_calls (CreateVolumeGroupSnapshot spec_mgr req'
       (rpc_locks (CreateVolumeGroupSnapshot spec_mgr req' locks' c))
       (rpc_world (CreateVolumeGroupSnapshot spec_mgr req' locks' c)))). \<not> is_mutation e))"
proof (intro conjI impI)
  assume h: "EvGetVolumeGroupSnapshotByName n (Some gs) lookupErr \<in>
      set (rpc_calls (CreateVolumeGroupSnapshot mgr req locks w))"
  from existing_snapshot_calls [OF h]
  show "\<exists>conv. EvToCSI gs conv \<in> set (rpc_calls (CreateVolumeGroupSnapshot mgr req locks w)) \<and>
       rpc_result (CreateVolumeGroupSnapshot mgr req locks w) =
         (case conv of Inl csiErr \<Rightarrow> Status Aborted | Inr csiVGS \<Rightarrow> Reply csiVGS)"
    by (simp add: converted_def)
  from existing_snapshot_calls [OF h]
  show "\<forall>e \<in> set (rpc_calls (CreateVolumeGroupSnapshot mgr req locks w)). \<not> is_mutation e"
    by simp
next
  assume h: "rpc_result (CreateVolumeGroupSnapshot spec_mgr req' locks' c) = Reply resp"
  from spec_second_call [OF h]
  show "rpc_result (CreateVolumeGroupSnapshot spec_mgr req'
       (rpc_locks (CreateVolumeGroupSnapshot spec_mgr req' locks' c))
       (rpc_world (CreateVolumeGroupSnapshot spec_mgr req' locks' c))) = Reply resp"
    and "rpc_world (CreateVolumeGroupSnapshot spec_mgr req'
       (rpc_locks (CreateVolumeGroupSnapshot spec_mgr req' locks' c))
       (rpc_world (CreateVolumeGroupSnapshot spec_mgr req' locks' c))) =
      rpc_world (CreateVolumeGroupSnapshot spec_mgr req' locks' c)"
    and "\<forall>e \<in> set (rpc_calls (CreateVolumeGroupSnapshot spec_mgr req'
       (rpc_locks (CreateVolumeGroupSnapshot spec_mgr req' locks' c))
       (rpc_world (CreateVolumeGroupSnapshot spec_mgr req' locks' c)))). \<not> is_mutation e"
    by simp_all
qed

text \<open>
  A call for \<open>vgs1\<close> on a cluster that already holds the group snapshot \<open>vgs1\<close>, and
  the call that made it followed by its repetition.
\<close>

theorem existing_snapshot_returned_witness:
  "EvGetVolumeGroupSnapshotByName ''vgs1''
      (Some (new_group_snapshot ''vgs1'' [''v1'', ''v2'', ''v3''] 7)) None \<in>
     set (rpc_calls (CreateVolumeGroupSnapshot spec_mgr (request ''vgs1'' [''v1'', ''v2'', ''v3''])
            {} snapshotted)) \<and>
   filter is_mutation (rpc_calls (CreateVolumeGroupSnapshot spec_mgr
            (request ''vgs1'' [''v1'', ''v2'', ''v3'']) {} snapshotted)) = [] \<and>
   rpc_result (CreateVolumeGroupSnapshot spec_mgr (request ''vgs1'' [''v1'', ''v2'', ''v3''])
            {} three_volumes) = Reply vgs1_response \<and>
   rpc_result (CreateVolumeGroupSnapshot spec_mgr (request ''vgs1'' [''v1'', ''v2'', ''v3''])
     (rpc_locks (CreateVolumeGroupSnapshot spec_mgr (request ''vgs1'' [''v1'', ''v2'', ''v3''])
            {} three_volumes))
     (rpc_world (CreateVolumeGroupSnapshot spec_mgr (request ''vgs1'' [''v1'', ''v2'', ''v3''])
            {} three_volumes))) = Reply vgs1_response"
proof -
  have hyp: "EvGetVolumeGroupSnapshotByName ''vgs1''
      (Some (new_group_snapshot ''vgs1'' [''v1'', ''v2'', ''v3''] 7)) None \<in>
     set (rpc_calls (CreateVolumeGroupSnapshot spec_mgr (request ''vgs1'' [''v1'', ''v2'', ''v3''])
            {} snapshotted))"
    by (simp add: run_defs snapshotted_def)
  have first: "rpc_result (CreateVolumeGroupSnapshot spec_mgr
      (request ''vgs1'' [''v1'', ''v2'', ''v3'']) {} three_volumes) = Reply vgs1_response"
    by (simp add: run_defs vgs1_response_def)
  show ?thesis
    using existing_snapshot_returned
      [where mgr = spec_mgr and req = "request ''vgs1'' [''v1'', ''v2'', ''v3'']" and locks = "{}"
        and w = snapshotted and n = "''vgs1''"
        and gs = "new_group_snapshot ''vgs1'' [''v1'', ''v2'', ''v3''] 7" and lookupErr = None
        and req' = "request ''vgs1'' [''v1'', ''v2'', ''v3'']" and locks' = "{}"
        and c = three_volumes and resp = vgs1_response]
      hyp first
    by (simp add: filter_empty_conv)
qed

text \<open>
  The claim as stated fails where the conversion fails: the lookup finds a group
  snapshot without an identifier, and the call returns \<open>Aborted\<close>, not the snapshot.
\<close>

theorem existing_snapshot_conversion_counterexample:
  "EvGetVolumeGroupSnapshotByName ''vgs1'' (Some unidentified_snapshot) None \<in>
     set (rpc_calls (CreateVolumeGroupSnapshot spec_mgr (request ''vgs1'' [''v1''])
            {} (three_volumes\<lparr>cl_snapshots := [unidentified_snapshot]\<rparr>))) \<and>
   rpc_result (CreateVolumeGroupSnapshot spec_mgr (request ''vgs1'' [''v1''])
            {} (three_volumes\<lparr>cl_snapshots := [unidentified_snapshot]\<rparr>)) = Status Aborted"
  by (simp add: run_defs unidentified_snapshot_def)

text \<open>
  C2, as the code has it. In a run of \<open>CreateVolumeGroupSnapshot\<close> in which adding a
  volume to the group fails, the call returns \<open>Aborted\<close> and \<open>CreateVolumeGroupSnapshot\<close>
  of the manager is never called. The failed volume is the one at some position \<open>k\<close>
  of the resolved volumes, the ones before it were added, and after the failure the
  calls are: the credentials are deleted; \<open>RemoveVolume\<close> is called on every resolved
  volume in request order, those that were never added included, each followed by the
  release of the volume; the group is deleted and released; the manager is released
  and the lock given back.
\<close>

theorem add_failure_cleanup:
  assumes "EvAddVolume g v (Some addErr) \<in>
             set (rpc_calls (CreateVolumeGroupSnapshot mgr req locks w))"
  shows "rpc_result (CreateVolumeGroupSnapshot mgr req locks w) = Status Aborted \<and>
         (\<forall>g' n r. EvCreateVolumeGroupSnapshot g' n r \<notin>
            set (rpc_calls (CreateVolumeGroupSnapshot mgr req locks w))) \<and>
         (\<exists>vs k prs rrs lookupErr delErr.
            length vs = length (SourceVolumeIds req) \<and> k < length vs \<and> v = Some (vs ! k) \<and>
            length prs = length vs \<and> failures prs = [] \<and> length rrs = length vs \<and>
            rpc_calls (CreateVolumeGroupSnapshot mgr req locks w) =
              EvTryAcquire (Name req) True # resolved_calls (SourceVolumeIds req) vs @
              [EvGetVolumeGroupSnapshotByName (Name req) None lookupErr, EvNewUserCredentials None] @
              prepare_calls vs prs @
              [EvCreateVolumeGroup (Name req @ ''-vg'') (Inr g)] @ added_calls g (take k vs) @
              [EvAddVolume g v (Some addErr), EvDeleteCredentials] @
              removal_calls g vs rrs @
              [EvDeleteVolumeGroup g delErr, EvDestroyVolumeGroup g,
               EvDestroyManager, EvRelease (Name req)] \<and>
            removed_volumes (rpc_calls (CreateVolumeGroupSnapshot mgr req locks w)) = map Some vs)"
  using CreateVolumeGroupSnapshot_path [of req locks mgr w] assms
proof (cases rule: create_path.cases)
  case (not_added vs prs k rrs lookupErr g' addErr' delErr)
  with assms have eq: "g' = g" "v = Some (vs ! k)" "addErr' = addErr"
    by (auto simp: call_defs dest: in_set_takeD in_set_zipE)
  have "removed_volumes (rpc_calls (CreateVolumeGroupSnapshot mgr req locks w)) = map Some vs"
    using not_added by (simp add: cleanup_calls_def)
  moreover have "\<forall>g' n r. EvCreateVolumeGroupSnapshot g' n r \<notin>
            set (rpc_calls (CreateVolumeGroupSnapshot mgr req locks w))"
    using not_added by (auto simp: call_defs dest: in_set_takeD in_set_zipE)
  moreover have "\<exists>vs k prs rrs lookupErr delErr.
            length vs = length (SourceVolumeIds req) \<and> k < length vs \<and> v = Some (vs ! k) \<and>
            length prs = length vs \<and> failures prs = [] \<and> length rrs = length vs \<and>
            rpc_calls (CreateVolumeGroupSnapshot mgr req locks w) =
              EvTryAcquire (Name req) True # resolved_calls (SourceVolumeIds req) vs @
              [EvGetVolumeGroupSnapshotByName (Name req) None lookupErr, EvNewUserCredentials None] @
              prepare_calls vs prs @
              [EvCreateVolumeGroup (Name req @ ''-vg'') (Inr g)] @ added_calls g (take k vs) @
              [EvAddVolume g v (Some addErr), EvDeleteCredentials] @
              removal_calls g vs rrs @
              [EvDeleteVolumeGroup g delErr, EvDestroyVolumeGroup g,
               EvDestroyManager, EvRelease (Name req)] \<and>
            removed_volumes (rpc_calls (CreateVolumeGroupSnapshot mgr req locks w)) = map Some vs"
    using not_added eq calculation
    by (intro exI [of _ vs] exI [of _ k] exI [of _ prs] exI [of _ rrs] exI [of _ lookupErr]
        exI [of _ delErr]) (simp add: cleanup_calls_def)
  ultimately show ?thesis
    using not_added(1) by simp
qed (auto simp: call_defs dest: in_set_takeD in_set_zipE)

text \<open>
  Three volumes of which the second is in another group: adding it fails, the call
  returns \<open>Aborted\<close> and \<open>RemoveVolume\<close> is called on all three volumes.
\<close>

theorem add_failure_cleanup_witness:
  "EvAddVolume ''vgs3-vg'' (Some ''v2'') (Some (ErrorsNew ''volume is in another group'')) \<in>
     set (rpc_calls (CreateVolumeGroupSnapshot spec_mgr (request ''vgs3'' [''v1'', ''v2'', ''v3''])
            {} v2_grouped)) \<and>
   rpc_result (CreateVolumeGroupSnapshot spec_mgr (request ''vgs3'' [''v1'', ''v2'', ''v3''])
            {} v2_grouped) = Status Aborted \<and>
   (\<forall>g' n r. EvCreateVolumeGroupSnapshot g' n r \<notin>
      set (rpc_calls (CreateVolumeGroupSnapshot spec_mgr (request ''vgs3'' [''v1'', ''v2'', ''v3''])
            {} v2_grouped)))"
proof -
  have hyp: "EvAddVolume ''vgs3-vg'' (Some ''v2'') (Some (ErrorsNew ''volume is in another group'')) \<in>
     set (rpc_calls (CreateVolumeGroupSnapshot spec_mgr (request ''vgs3'' [''v1'', ''v2'', ''v3''])
            {} v2_grouped))"
    by (simp add: run_defs v2_grouped_def)
  show ?thesis
    using add_failure_cleanup [OF hyp] hyp by simp
qed

text \<open>
  The claim as stated fails on the volumes that are removed: when adding the second
  of three volumes fails, the cleanup calls \<open>RemoveVolume\<close> on all three, not on the
  first alone.
\<close>

theorem add_failure_removal_counterexample:
  "EvAddVolume ''vgs3-vg'' (Some ''v2'') (Some (ErrorsNew ''volume is in another group'')) \<in>
     set (rpc_calls (CreateVolumeGroupSnapshot spec_mgr (request ''vgs3'' [''v1'', ''v2'', ''v3''])
            {} v2_grouped)) \<and>
   removed_volumes (rpc_calls (CreateVolumeGroupSnapshot spec_mgr
            (request ''vgs3'' [''v1'', ''v2'', ''v3'']) {} v2_grouped)) =
     [Some ''v1'', Some ''v2'', Some ''v3''] \<and>
   removed_volumes (rpc_calls (CreateVolumeGroupSnapshot spec_mgr
            (request ''vgs3'' [''v1'', ''v2'', ''v3'']) {} v2_grouped)) \<noteq> [Some ''v1'']"
  by (simp add: run_defs v2_grouped_def)

text \<open>
  C3, as the code has it. In a run of \<open>CreateVolumeGroupSnapshot\<close> in which the lookup
  by name returns no group snapshot, the error of the lookup, not-found or any other,
  does not end the call: the next call builds the credentials; the call returns
  \<open>Internal\<close> when that fails, and otherwise goes on to prepare every resolved volume.
\<close>

theorem lookup_error_not_fatal:
  assumes "EvGetVolumeGroupSnapshotByName n None lookupErr \<in>
             set (rpc_calls (CreateVolumeGroupSnapshot mgr req locks w))"
  shows "\<exists>vs credErr rest.
           length vs = length (SourceVolumeIds req) \<and>
           rpc_calls (CreateVolumeGroupSnapshot mgr req locks w) =
             EvTryAcquire (Name req) True # resolved_calls (SourceVolumeIds req) vs @
             [EvGetVolumeGroupSnapshotByName n None lookupErr, EvNewUserCredentials credErr] @ rest \<and>
           (case credErr of
              Some e \<Rightarrow> rpc_result (CreateVolumeGroupSnapshot mgr req locks w) = Status Internal
            | None \<Rightarrow> \<exists>prs rest'. length prs = length vs \<and> rest = prepare_calls vs prs @ rest')"
  using CreateVolumeGroupSnapshot_path [of req locks mgr w] assms
proof (cases rule: create_path.cases)
  case (no_credentials vs lookupErr' credErr)
  with assms have "n = Name req" "lookupErr' = lookupErr"
    by (auto simp: call_defs dest: in_set_zipE)
  with no_credentials show ?thesis
    by (intro exI [of _ vs] exI [of _ "Some credErr"]) simp
next
  case (unprepared vs prs e es lookupErr')
  with assms have "n = Name req" "lookupErr' = lookupErr"
    by (auto simp: call_defs dest: in_set_zipE)
  with unprepared show ?thesis
    by (intro exI [of _ vs] exI [of _ None]) auto
next
  case (no_group vs prs lookupErr' groupErr)
  with assms have "n = Name req" "lookupErr' = lookupErr"
    by (auto simp: call_defs dest: in_set_zipE)
  with no_group show ?thesis
    by (intro exI [of _ vs] exI [of _ None]) auto
next
  case (not_added vs prs k rrs lookupErr' g addErr delErr)
  with assms have "n = Name req" "lookupErr' = lookupErr"
    by (auto simp: call_defs dest: in_set_takeD in_set_zipE)
  with not_added show ?thesis
    by (intro exI [of _ vs] exI [of _ None]) auto
next
  case (no_snapshot vs prs rrs lookupErr' g snapErr delErr)
  with assms have "n = Name req" "lookupErr' = lookupErr"
    by (auto simp: call_defs dest: in_set_takeD in_set_zipE)
  with no_snapshot show ?thesis
    by (intro exI [of _ vs] exI [of _ None]) auto
next
  case (snapshot_taken vs prs rrs conv lookupErr' g gs delErr)
  with assms have "n = Name req" "lookupErr' = lookupErr"
    by (auto simp: call_defs dest: in_set_takeD in_set_zipE)
  with snapshot_taken show ?thesis
    by (intro exI [of _ vs] exI [of _ None]) auto
qed (auto simp: call_defs dest: in_set_zipE)

text \<open>A manager whose lookup by name times out: the credentials are built all the same.\<close>

theorem lookup_error_not_fatal_witness:
  "EvGetVolumeGroupSnapshotByName ''vgs1'' None (Some timed_out) \<in>
     set (rpc_calls (CreateVolumeGroupSnapshot lookup_times_out
            (request ''vgs1'' [''v1'', ''v2'', ''v3'']) {} three_volumes)) \<and>
   EvNewUserCredentials None \<in>
     set (rpc_calls (CreateVolumeGroupSnapshot lookup_times_out
            (request ''vgs1'' [''v1'', ''v2'', ''v3'']) {} three_volumes))"
proof -
  have hyp: "EvGetVolumeGroupSnapshotByName ''vgs1'' None (Some timed_out) \<in>
     set (rpc_calls (CreateVolumeGroupSnapshot lookup_times_out
            (request ''vgs1'' [''v1'', ''v2'', ''v3'']) {} three_volumes))"
    by (simp add: run_defs lookup_times_out_def)
  have creds: "EvNewUserCredentials None \<in>
     set (rpc_calls (CreateVolumeGroupSnapshot lookup_times_out
            (request ''vgs1'' [''v1'', ''v2'', ''v3'']) {} three_volumes))"
    by (simp add: run_defs lookup_times_out_def)
  show ?thesis
    using lookup_error_not_fatal [OF hyp] hyp creds by simp
qed

text \<open>
  The claim as stated fails: the lookup by name fails with an error that is not
  not-found, and the call does not return \<open>Internal\<close>; it creates the group and
  returns the new group snapshot.
\<close>

theorem lookup_error_counterexample:
  "EvGetVolumeGroupSnapshotByName ''vgs1'' None (Some timed_out) \<in>
     set (rpc_calls (CreateVolumeGroupSnapshot lookup_times_out
            (request ''vgs1'' [''v1'', ''v2'', ''v3'']) {} three_volumes)) \<and>
   \<not> errors_Is timed_out ErrRBDGroupNotFound \<and>
   rpc_result (CreateVolumeGroupSnapshot lookup_times_out
            (request ''vgs1'' [''v1'', ''v2'', ''v3'']) {} three_volumes) = Reply vgs1_response \<and>
   EvCreateVolumeGroup ''vgs1-vg'' (Inr ''vgs1-vg'') \<in>
     set (rpc_calls (CreateVolumeGroupSnapshot lookup_times_out
            (request ''vgs1'' [''v1'', ''v2'', ''v3'']) {} three_volumes))"
  by (simp add: run_defs lookup_times_out_def timed_out_def ErrRBDGroupNotFound_def
      vgs1_response_def)

text \<open>
  C4. In a run of \<open>CreateVolumeGroupSnapshot\<close> in which \<open>GetVolumeByID\<close> fails for a
  source volume, the call returns \<open>InvalidArgument\<close> and makes no call that changes
  the storage (no group is created). The failure ends the resolution: after it the
  volumes resolved so far are released, then the manager and the lock.
\<close>

theorem unresolved_volume_invalid_argument:
  assumes "EvGetVolumeByID volID (Inl err) \<in> set (rpc_calls (CreateVolumeGroupSnapshot mgr req locks w))"
  shows "rpc_result (CreateVolumeGroupSnapshot mgr req locks w) = Status InvalidArgument \<and>
         (\<forall>e \<in> set (rpc_calls (CreateVolumeGroupSnapshot mgr req locks w)). \<not> is_mutation e) \<and>
         (\<exists>vs. length vs < length (SourceVolumeIds req) \<and> volID = SourceVolumeIds req ! length vs \<and>
            rpc_calls (CreateVolumeGroupSnapshot mgr req locks w) =
              EvTryAcquire (Name req) True #
              resolved_calls (take (length vs) (SourceVolumeIds req)) vs @
              [EvGetVolumeByID volID (Inl err)] @
              destroy_calls vs @ [EvDestroyManager, EvRelease (Name req)])"
  using CreateVolumeGroupSnapshot_path [of req locks mgr w] assms
proof (cases rule: create_path.cases)
  case (unresolved vs err')
  with assms have "err' = err" "volID = SourceVolumeIds req ! length vs"
    by (auto simp: call_defs)
  with unresolved show ?thesis
    by (auto simp: call_defs)
qed (auto simp: call_defs dest: in_set_zipE)

text \<open>A request for \<open>v1\<close> and the unknown \<open>vX\<close>.\<close>

theorem unresolved_volume_invalid_argument_witness:
  "EvGetVolumeByID ''vX'' (Inl (Wrap ''volume'' ErrImageNotFound)) \<in>
     set (rpc_calls (CreateVolumeGroupSnapshot spec_mgr (request ''vgs2'' [''v1'', ''vX''])
            {} three_volumes)) \<and>
   rpc_result (CreateVolumeGroupSnapshot spec_mgr (request ''vgs2'' [''v1'', ''vX''])
            {} three_volumes) = Status InvalidArgument \<and>
   filter is_mutation (rpc_calls (CreateVolumeGroupSnapshot spec_mgr
            (request ''vgs2'' [''v1'', ''vX'']) {} three_volumes)) = []"
proof -
  have hyp: "EvGetVolumeByID ''vX'' (Inl (Wrap ''volume'' ErrImageNotFound)) \<in>
     set (rpc_calls (CreateVolumeGroupSnapshot spec_mgr (request ''vgs2'' [''v1'', ''vX''])
            {} three_volumes))"
    by (simp add: run_defs)
  show ?thesis
    using unresolved_volume_invalid_argument [OF hyp] hyp by (simp add: filter_empty_conv)
qed

text \<open>
  C5. When the lock of the name is held, \<open>CreateVolumeGroupSnapshot\<close> returns
  \<open>Aborted\<close> after the failed attempt to take it, makes no other call and changes
  nothing. When the lock is free, the call takes it first and gives it back last,
  whatever it returns, and the lock is free after the call. The other locks are as
  they were.
\<close>

theorem name_lock_released:
  "(Name req \<in> locks \<longrightarrow>
      CreateVolumeGroupSnapshot mgr req locks w =
        (Status Aborted, locks, w, [EvTryAcquire (Name req) False])) \<and>
   (Name req \<notin> locks \<longrightarrow>
      hd (rpc_calls (CreateVolumeGroupSnapshot mgr req locks w)) = EvTryAcquire (Name req) True \<and>
      last (rpc_calls (CreateVolumeGroupSnapshot mgr req locks w)) = EvRelease (Name req) \<and>
      Name req \<notin> rpc_locks (CreateVolumeGroupSnapshot mgr req locks w)) \<and>
   rpc_locks (CreateVolumeGroupSnapshot mgr req locks w) = locks"
  by (auto simp: CreateVolumeGroupSnapshot_def TryAcquire_def Release_def rpc_locks_def
      rpc_calls_def split: prod.splits)

text \<open>A call for \<open>vgs1\<close> while its lock is held, and one while it is free.\<close>

theorem name_lock_released_witness:
  "Name (request ''vgs1'' [''v1'']) \<in> {''vgs1''} \<and>
   CreateVolumeGroupSnapshot spec_mgr (request ''vgs1'' [''v1'']) {''vgs1''} three_volumes =
     (Status Aborted, {''vgs1''}, three_volumes, [EvTryAcquire ''vgs1'' False]) \<and>
   Name (request ''vgs1'' [''v1'']) \<notin> {''vgs2''} \<and>
   last (rpc_calls (CreateVolumeGroupSnapshot spec_mgr (request ''vgs1'' [''v1'']) {''vgs2''}
           three_volumes)) = EvRelease ''vgs1'' \<and>
   rpc_locks (CreateVolumeGroupSnapshot spec_mgr (request ''vgs1'' [''v1'']) {''vgs2''}
           three_volumes) = {''vgs2''}"
  using name_lock_released [of "request ''vgs1'' [''v1'']" "{''vgs1''}" spec_mgr three_volumes]
    name_lock_released [of "request ''vgs1'' [''v1'']" "{''vgs2''}" spec_mgr three_volumes]
  by (simp add: request_def)







end
